theory Spec2Isabelle
  imports Complex_Main "HOL-Library.AList"
begin

section \<open>Python values and errors\<close>

text \<open>
  The exceptions the modelled code can raise by itself.  Exceptions of the deep-learning
  framework (device errors, shape mismatches) are outside the model.  Python floats are
  idealised as \<^typ>\<open>real\<close>: rounding, infinities and NaN are not modelled.
\<close>

datatype py_error = ZeroDivisionError | UnboundLocalError | ValueError | SystemExit

text \<open>Python's \<^verbatim>\<open>a % b\<close> on integers: floored, the sign of the divisor, and an
  exception when the divisor is zero.\<close>

definition py_mod :: "int \<Rightarrow> int \<Rightarrow> py_error + int" where
  "py_mod a b = (if b = 0 then Inl ZeroDivisionError else Inr (a mod b))"

text \<open>\<^verbatim>\<open>np.concatenate\<close> over a list of arrays, an array being the list of its
  rows along axis 0.  It raises \<^verbatim>\<open>ValueError\<close> on an empty list of arrays.\<close>

definition np_concatenate :: "'a list list \<Rightarrow> py_error + 'a list" where
  "np_concatenate arrays = (if arrays = [] then Inl ValueError else Inr (concat arrays))"

text \<open>\<^verbatim>\<open>os.path.join(a, b)\<close> of posixpath, for two components.\<close>

definition os_path_join :: "string \<Rightarrow> string \<Rightarrow> string" where
  "os_path_join a b =
     (if b \<noteq> [] \<and> hd b = CHR ''/'' then b
      else if a = [] \<or> last a = CHR ''/'' then a @ b
      else a @ ''/'' @ b)"

text \<open>\<^verbatim>\<open>"{}".format(n)\<close> for an integer: its decimal digits, with a minus sign
  when negative.\<close>

definition digit_char :: "nat \<Rightarrow> char" where
  "digit_char d =
     (if d = 0 then CHR ''0'' else if d = 1 then CHR ''1'' else if d = 2 then CHR ''2''
      else if d = 3 then CHR ''3'' else if d = 4 then CHR ''4'' else if d = 5 then CHR ''5''
      else if d = 6 then CHR ''6'' else if d = 7 then CHR ''7'' else if d = 8 then CHR ''8''
      else CHR ''9'')"

fun str_nat :: "nat \<Rightarrow> string" where
  "str_nat n = (if n < 10 then [digit_char n] else str_nat (n div 10) @ [digit_char (n mod 10)])"

declare str_nat.simps [simp del]

definition str_int :: "int \<Rightarrow> string" where
  "str_int i = (if i < 0 then CHR ''-'' # str_nat (nat (- i)) else str_nat (nat i))"

section \<open>The trainer and its collaborators\<close>

text \<open>
  What the trainer does to the outside world, in the order it does it.  A checkpoint
  write carries the state dict that is written and the path.  \<open>PrintFmt label x\<close>
  is \<^verbatim>\<open>print("label{:.7f}".format(x))\<close>; the rendering of the float is not modelled.
  \<open>SetPostfix\<close> is the progress bar's running average loss (the metric's printed
  score, a read of the metric, is left out).
\<close>

datatype 'p event =
    Print string
  | PrintFmt string real
  | ModelTrain
  | ModelEval
  | MetricReset
  | ZeroGrad
  | Backward
  | OptimizerStep
  | MetricUpdate
  | AddScalar string real int
  | SetPostfix real
  | TorchSave 'p string

text \<open>
  The collaborators the trainer is constructed with are external (the network, the
  optimizer, the loss, the metric object and \<^verbatim>\<open>mean_iou_score\<close> of the module
  \<^verbatim>\<open>mean_iou_evaluate\<close>), so their behaviour is a parameter of the model:
  \<^item> \<open>'p\<close> the model's parameters (its state dict), \<open>'g\<close> the accumulated gradients,
  \<^item> \<open>'i\<close> a batch of images, \<open>'l\<close> one label map, \<open>'o\<close> the network's output for a batch,
  \<^item> \<open>'m\<close> the state of the metric accumulator.
  The forward pass and the gradient depend on the mode (train or eval) of the network.
  The label arrays (\<^verbatim>\<open>.cpu().numpy()\<close>) are lists of label maps.
\<close>

record ('p, 'g, 'i, 'l, 'o, 'm) collaborators =
  model_forward :: "bool \<Rightarrow> 'p \<Rightarrow> 'i \<Rightarrow> 'o"
  criterion :: "'o \<Rightarrow> 'l list \<Rightarrow> real"
  autograd :: "bool \<Rightarrow> 'p \<Rightarrow> 'i \<Rightarrow> 'l list \<Rightarrow> 'g \<Rightarrow> 'g"
  opt_update :: "'p \<Rightarrow> 'g \<Rightarrow> 'p"
  opt_zero :: "'g \<Rightarrow> 'g"
  softmax_argmax :: "'o \<Rightarrow> 'l list"
  metric_reset :: "'m \<Rightarrow> 'm"
  metric_update :: "'l list \<Rightarrow> 'l list \<Rightarrow> 'm \<Rightarrow> 'm"
  metric_get_score :: "'m \<Rightarrow> real"
  mean_iou_score :: "'l list \<Rightarrow> 'l list \<Rightarrow> real"

text \<open>The fields of \<^verbatim>\<open>Trainer\<close> that are plain data; a loader is the list of the
  batches it yields (the same in every epoch), a batch a pair of images and label maps.\<close>

record ('i, 'l) trainer =
  accumulate_gradient :: int
  train_loader :: "('i \<times> 'l list) list"
  val_loader :: "('i \<times> 'l list) list"
  save_dir :: string

text \<open>The mutable world: the network's parameters, gradients and mode, the metric
  accumulator, and the log of effects.\<close>

record ('p, 'g, 'm) world =
  params :: 'p
  grads :: 'g
  training :: bool
  metric_state :: 'm
  trace :: "'p event list"

definition emit :: "'p event \<Rightarrow> ('p, 'g, 'm) world \<Rightarrow> ('p, 'g, 'm) world" where
  "emit e w = w\<lparr>trace := trace w @ [e]\<rparr>"

text \<open>The events a computation added to the log, from the worlds before and after it.\<close>

definition emitted :: "('p, 'g, 'm) world \<Rightarrow> ('p, 'g, 'm) world \<Rightarrow> 'p event list" where
  "emitted w w' = drop (length (trace w)) (trace w')"

definition model_train :: "('p, 'g, 'm) world \<Rightarrow> ('p, 'g, 'm) world" where
  "model_train w = emit ModelTrain (w\<lparr>training := True\<rparr>)"

definition model_eval :: "('p, 'g, 'm) world \<Rightarrow> ('p, 'g, 'm) world" where
  "model_eval w = emit ModelEval (w\<lparr>training := False\<rparr>)"

definition metric_reset_w ::
  "('p, 'g, 'i, 'l, 'o, 'm) collaborators \<Rightarrow> ('p, 'g, 'm) world \<Rightarrow> ('p, 'g, 'm) world" where
  "metric_reset_w c w = emit MetricReset (w\<lparr>metric_state := metric_reset c (metric_state w)\<rparr>)"

definition metric_update_w ::
  "('p, 'g, 'i, 'l, 'o, 'm) collaborators \<Rightarrow> 'l list \<Rightarrow> 'l list \<Rightarrow> ('p, 'g, 'm) world
     \<Rightarrow> ('p, 'g, 'm) world" where
  "metric_update_w c preds segs w =
     emit MetricUpdate (w\<lparr>metric_state := metric_update c preds segs (metric_state w)\<rparr>)"

definition optimizer_zero_grad ::
  "('p, 'g, 'i, 'l, 'o, 'm) collaborators \<Rightarrow> ('p, 'g, 'm) world \<Rightarrow> ('p, 'g, 'm) world" where
  "optimizer_zero_grad c w = emit ZeroGrad (w\<lparr>grads := opt_zero c (grads w)\<rparr>)"

definition loss_backward ::
  "('p, 'g, 'i, 'l, 'o, 'm) collaborators \<Rightarrow> 'i \<Rightarrow> 'l list \<Rightarrow> ('p, 'g, 'm) world
     \<Rightarrow> ('p, 'g, 'm) world" where
  "loss_backward c imgs segs w =
     emit Backward (w\<lparr>grads := autograd c (training w) (params w) imgs segs (grads w)\<rparr>)"

definition optimizer_step ::
  "('p, 'g, 'i, 'l, 'o, 'm) collaborators \<Rightarrow> ('p, 'g, 'm) world \<Rightarrow> ('p, 'g, 'm) world" where
  "optimizer_step c w = emit OptimizerStep (w\<lparr>params := opt_update c (params w) (grads w)\<rparr>)"

definition add_scalar :: "string \<Rightarrow> real \<Rightarrow> int \<Rightarrow> ('p, 'g, 'm) world \<Rightarrow> ('p, 'g, 'm) world" where
  "add_scalar key v step w = emit (AddScalar key v step) w"

text \<open>\<^verbatim>\<open>Trainer.save\<close>: \<^verbatim>\<open>torch.save(self.model.state_dict(), path)\<close>.\<close>

definition save :: "string \<Rightarrow> ('p, 'g, 'm) world \<Rightarrow> ('p, 'g, 'm) world" where
  "save path w = emit (TorchSave (params w) path) w"

subsection \<open>The training epoch\<close>

text \<open>
  The body of the batch loop of \<^verbatim>\<open>_run_one_epoch\<close>, for the batch at index \<open>idx\<close>
  of the enumeration.  It threads \<^verbatim>\<open>iters\<close>, \<^verbatim>\<open>batch_loss\<close> and the world.
\<close>

definition train_step ::
  "('p, 'g, 'i, 'l, 'o, 'm) collaborators \<Rightarrow> int \<Rightarrow> nat \<Rightarrow> 'i \<times> 'l list
     \<Rightarrow> int \<times> real \<times> ('p, 'g, 'm) world \<Rightarrow> py_error + (int \<times> real \<times> ('p, 'g, 'm) world)" where
  "train_step c k idx batch s =
     (case s of (iters, batch_loss, w) \<Rightarrow>
     (case batch of (imgs, segs) \<Rightarrow>
        (let iters = iters + 1;
             preds = model_forward c (training w) (params w) imgs;
             loss = criterion c preds segs
         in (case py_mod (int idx) k of
               Inl e \<Rightarrow> Inl e
             | Inr r0 \<Rightarrow>
                 (let w = (if r0 = 0 then optimizer_zero_grad c w else w);
                      w = loss_backward c imgs segs w
                  in (case py_mod (int idx + 1) k of
                        Inl e \<Rightarrow> Inl e
                      | Inr r1 \<Rightarrow>
                          (let w = (if r1 = 0 then optimizer_step c w else w);
                               labels = softmax_argmax c preds;
                               w = metric_update_w c labels segs w;
                               batch_loss = batch_loss + loss;
                               w = add_scalar ''loss/train_loss'' loss iters w;
                               w = emit (SetPostfix (batch_loss / (real idx + 1))) w
                           in Inr (iters, batch_loss, w))))))))"

text \<open>
  The batch loop over \<^verbatim>\<open>enumerate(self.train_loader)\<close>, from index \<open>i\<close> on.  The
  first component of the state is the loop variable \<^verbatim>\<open>idx\<close> as the code after the loop
  sees it: \<open>None\<close> while it is unbound.
\<close>

fun train_loop ::
  "('p, 'g, 'i, 'l, 'o, 'm) collaborators \<Rightarrow> int \<Rightarrow> nat \<Rightarrow> ('i \<times> 'l list) list
     \<Rightarrow> nat option \<times> int \<times> real \<times> ('p, 'g, 'm) world
     \<Rightarrow> py_error + (nat option \<times> int \<times> real \<times> ('p, 'g, 'm) world)" where
  "train_loop c k i [] s = Inr s"
| "train_loop c k i (batch # batches) (idx, iters, batch_loss, w) =
     (case train_step c k i batch (iters, batch_loss, w) of
        Inl e \<Rightarrow> Inl e
      | Inr (iters', batch_loss', w') \<Rightarrow>
          train_loop c k (Suc i) batches (Some i, iters', batch_loss', w'))"

text \<open>\<^verbatim>\<open>Trainer._run_one_epoch(epoch, iters)\<close>; the result is the returned triple
  (average loss, metric score, iters) and the world.\<close>

definition run_one_epoch ::
  "('p, 'g, 'i, 'l, 'o, 'm) collaborators \<Rightarrow> ('i, 'l) trainer \<Rightarrow> int \<Rightarrow> int \<Rightarrow> ('p, 'g, 'm) world
     \<Rightarrow> py_error + ((real \<times> real \<times> int) \<times> ('p, 'g, 'm) world)" where
  "run_one_epoch c self epoch iters w =
     (let w = model_train w;
          w = metric_reset_w c w
      in case train_loop c (accumulate_gradient self) 0 (train_loader self) (None, iters, 0, w) of
           Inl e \<Rightarrow> Inl e
         | Inr (idx_opt, iters, batch_loss, w) \<Rightarrow>
             (case idx_opt of
                None \<Rightarrow> Inl UnboundLocalError
              | Some idx \<Rightarrow>
                  let w = (if int idx mod 4 = 0
                           then optimizer_zero_grad c (optimizer_step c w) else w);
                      w = add_scalar ''mIoU/train_miou'' (metric_get_score c (metric_state w)) epoch w
                  in Inr ((batch_loss / (real idx + 1), metric_get_score c (metric_state w), iters), w)))"

subsection \<open>The validation epoch\<close>

text \<open>The body of the batch loop of \<^verbatim>\<open>_eval_one_epoch\<close>; it also threads the two
  buffers \<^verbatim>\<open>val_preds\<close> and \<^verbatim>\<open>val_segs\<close>.\<close>

definition eval_step ::
  "('p, 'g, 'i, 'l, 'o, 'm) collaborators \<Rightarrow> 'i \<times> 'l list
     \<Rightarrow> int \<times> real \<times> 'l list list \<times> 'l list list \<times> ('p, 'g, 'm) world
     \<Rightarrow> int \<times> real \<times> 'l list list \<times> 'l list list \<times> ('p, 'g, 'm) world" where
  "eval_step c batch s =
     (case s of (iters, batch_loss, val_preds, val_segs, w) \<Rightarrow>
      case batch of (imgs, segs) \<Rightarrow>
        let iters = iters + 1;
            preds = model_forward c (training w) (params w) imgs;
            loss = criterion c preds segs;
            labels = softmax_argmax c preds;
            val_preds = val_preds @ [labels];
            val_segs = val_segs @ [segs];
            batch_loss = batch_loss + loss;
            w = add_scalar ''loss/val_loss'' loss iters w
        in (iters, batch_loss, val_preds, val_segs, w))"

fun eval_loop ::
  "('p, 'g, 'i, 'l, 'o, 'm) collaborators \<Rightarrow> nat \<Rightarrow> ('i \<times> 'l list) list
     \<Rightarrow> nat option \<times> int \<times> real \<times> 'l list list \<times> 'l list list \<times> ('p, 'g, 'm) world
     \<Rightarrow> nat option \<times> int \<times> real \<times> 'l list list \<times> 'l list list \<times> ('p, 'g, 'm) world" where
  "eval_loop c i [] s = s"
| "eval_loop c i (batch # batches) (idx, s) = eval_loop c (Suc i) batches (Some i, eval_step c batch s)"

definition best_path :: "('i, 'l) trainer \<Rightarrow> string" where
  "best_path self = os_path_join (save_dir self) ''model_best.pth.tar''"

text \<open>\<^verbatim>\<open>Trainer._eval_one_epoch(epoch, iters, best_iou)\<close>; the result is the returned
  4-tuple (average loss, validation mIoU, iters, best mIoU) and the world.\<close>

definition eval_one_epoch ::
  "('p, 'g, 'i, 'l, 'o, 'm) collaborators \<Rightarrow> ('i, 'l) trainer \<Rightarrow> int \<Rightarrow> int \<Rightarrow> real
     \<Rightarrow> ('p, 'g, 'm) world \<Rightarrow> py_error + ((real \<times> real \<times> int \<times> real) \<times> ('p, 'g, 'm) world)" where
  "eval_one_epoch c self epoch iters best_iou w =
     (let w = model_eval w;
          w = metric_reset_w c w
      in case eval_loop c 0 (val_loader self) (None, iters, 0, [], [], w) of
           (idx_opt, iters, batch_loss, val_preds, val_segs, w) \<Rightarrow>
             (case np_concatenate val_preds of
                Inl e \<Rightarrow> Inl e
              | Inr all_preds \<Rightarrow>
                  (case np_concatenate val_segs of
                     Inl e \<Rightarrow> Inl e
                   | Inr all_segs \<Rightarrow>
                       let val_iou = mean_iou_score c all_preds all_segs;
                           w = add_scalar ''mIoU/val_miou'' val_iou epoch w;
                           (best_iou, w) =
                             (if val_iou > best_iou
                              then (val_iou, save (best_path self) (emit (Print ''Best model saved!'') w))
                              else (best_iou, w))
                       in (case idx_opt of
                             None \<Rightarrow> Inl UnboundLocalError
                           | Some idx \<Rightarrow>
                               Inr ((batch_loss / (real idx + 1), val_iou, iters, best_iou), w)))))"

subsection \<open>The epoch loop\<close>

definition epoch_path :: "('i, 'l) trainer \<Rightarrow> int \<Rightarrow> string" where
  "epoch_path self epoch = os_path_join (save_dir self) (''model_'' @ str_int epoch @ ''.pth.tar'')"

text \<open>The body of the loop of \<^verbatim>\<open>fit\<close>, for one epoch; it threads \<^verbatim>\<open>iters\<close>,
  \<^verbatim>\<open>val_iters\<close>, \<^verbatim>\<open>best_iou\<close> and the world.\<close>

definition fit_epoch ::
  "('p, 'g, 'i, 'l, 'o, 'm) collaborators \<Rightarrow> ('i, 'l) trainer \<Rightarrow> int
     \<Rightarrow> int \<times> int \<times> real \<times> ('p, 'g, 'm) world
     \<Rightarrow> py_error + (int \<times> int \<times> real \<times> ('p, 'g, 'm) world)" where
  "fit_epoch c self epoch s =
     (case s of (iters, val_iters, best_iou, w) \<Rightarrow>
     (case run_one_epoch c self epoch iters w of
        Inl e \<Rightarrow> Inl e
      | Inr ((train_loss, train_iou, iters), w) \<Rightarrow>
          (case eval_one_epoch c self epoch val_iters best_iou w of
             Inl e \<Rightarrow> Inl e
           | Inr ((val_loss, val_iou, val_iters, best_iou), w) \<Rightarrow>
               (let w = emit (PrintFmt ''Train loss:'' train_loss) w;
                    w = emit (PrintFmt ''Train Mean IOU:'' train_iou) w;
                    w = emit (PrintFmt ''Valid loss:'' val_loss) w;
                    w = emit (PrintFmt ''Valid Mean IOU:'' val_iou) w;
                    w = emit (Print '''') w;
                    w = save (epoch_path self epoch) w
                in Inr (iters, val_iters, best_iou, w)))))"

fun fit_loop ::
  "('p, 'g, 'i, 'l, 'o, 'm) collaborators \<Rightarrow> ('i, 'l) trainer \<Rightarrow> int list
     \<Rightarrow> int \<times> int \<times> real \<times> ('p, 'g, 'm) world
     \<Rightarrow> py_error + (int \<times> int \<times> real \<times> ('p, 'g, 'm) world)" where
  "fit_loop c self [] s = Inr s"
| "fit_loop c self (epoch # rest) s =
     (case fit_epoch c self epoch s of
        Inl e \<Rightarrow> Inl e
      | Inr s' \<Rightarrow> fit_loop c self rest s')"

text \<open>\<^verbatim>\<open>Trainer.fit(epochs)\<close>: the loop runs over \<^verbatim>\<open>range(1, epochs + 1)\<close>.  The
  function has no \<^verbatim>\<open>return\<close>, so its value is \<^verbatim>\<open>None\<close>, the only value of
  \<^typ>\<open>unit\<close>.\<close>

definition fit ::
  "('p, 'g, 'i, 'l, 'o, 'm) collaborators \<Rightarrow> ('i, 'l) trainer \<Rightarrow> int \<Rightarrow> ('p, 'g, 'm) world
     \<Rightarrow> py_error + (unit \<times> ('p, 'g, 'm) world)" where
  "fit c self epochs w =
     (let w = emit (Print ''===> start training ...'') w
      in case fit_loop c self [1..epochs] (- 1, - 1, 0, w) of
           Inl e \<Rightarrow> Inl e
         | Inr (iters, val_iters, best_iou, w) \<Rightarrow> Inr ((), w))"

section \<open>The argument parser\<close>

text \<open>
  \<^verbatim>\<open>arg_parse\<close> builds an \<^verbatim>\<open>argparse.ArgumentParser\<close>, adds thirteen optional
  arguments and parses the command line.  An argument is its option string, the
  attribute it is stored under, its action (store a converted value, or store
  \<^verbatim>\<open>True\<close>) and its default.
\<close>

datatype arg_value = VStr string | VInt int | VFloat real | VBool bool

datatype arg_type = TStr | TInt | TFloat

datatype arg_action = Store arg_type | StoreTrue

record argument =
  option_string :: string
  dest :: string
  action :: arg_action
  default_value :: arg_value

text \<open>The conversions \<^verbatim>\<open>int\<close> and \<^verbatim>\<open>float\<close> from a string are Python's, and a
  parameter of the model; \<open>None\<close> is their \<^verbatim>\<open>ValueError\<close>.\<close>

record converters =
  int_of_str :: "string \<Rightarrow> int option"
  float_of_str :: "string \<Rightarrow> real option"

text \<open>The attribute name argparse derives from an option string: the leading dashes
  are dropped and the other dashes become underscores.\<close>

definition dest_of :: "string \<Rightarrow> string" where
  "dest_of opt =
     map (\<lambda>ch. if ch = CHR ''-'' then CHR ''_'' else ch) (dropWhile (\<lambda>ch. ch = CHR ''-'') opt)"

definition add_argument ::
  "string \<Rightarrow> arg_action \<Rightarrow> arg_value \<Rightarrow> argument list \<Rightarrow> argument list" where
  "add_argument opt act dflt parser =
     parser @ [\<lparr>option_string = opt, dest = dest_of opt, action = act, default_value = dflt\<rparr>]"

text \<open>The arguments in the order \<^verbatim>\<open>arg_parse\<close> adds them
  (\<^verbatim>\<open>os.path.join("hw2_data")\<close> is \<^verbatim>\<open>"hw2_data"\<close>; a \<^verbatim>\<open>store_true\<close> argument
  defaults to \<^verbatim>\<open>False\<close>).\<close>

definition parser_arguments :: "argument list" where
  "parser_arguments =
     foldl (\<lambda>parser (opt, act, dflt). add_argument opt act dflt parser) []
       [(''--data_dir'', Store TStr, VStr ''hw2_data''),
        (''--workers'', Store TInt, VInt 4),
        (''--save_dir'', Store TStr, VStr ''models''),
        (''--pretrained'', StoreTrue, VBool False),
        (''--gpu'', Store TInt, VInt 0),
        (''--epoch'', Store TInt, VInt 100),
        (''--val_epoch'', Store TInt, VInt 1),
        (''--train_batch'', Store TInt, VInt 32),
        (''--test_batch'', Store TInt, VInt 32),
        (''--lr'', Store TFloat, VFloat 0.0002),
        (''--weight-decay'', Store TFloat, VFloat 0.0005),
        (''--resume'', Store TStr, VStr ''''),
        (''--random_seed'', Store TInt, VInt 42)]"

fun convert :: "converters \<Rightarrow> arg_type \<Rightarrow> string \<Rightarrow> arg_value option" where
  "convert cv TStr s = Some (VStr s)"
| "convert cv TInt s = map_option VInt (int_of_str cv s)"
| "convert cv TFloat s = map_option VFloat (float_of_str cv s)"

text \<open>
  The outcome of parsing: the namespace (attribute names and values, in the order of
  the arguments), a usage error (argparse prints the usage and exits with status 2), or
  a command line this model does not interpret.  The model reads option strings given
  in full, each value in a token of its own that does not start with a dash; a token in
  option position that does not start with a dash is an unrecognised positional
  argument.  Abbreviated options, \<^verbatim>\<open>--opt=value\<close>, \<^verbatim>\<open>-h\<close> and values starting with a
  dash are left uninterpreted.
\<close>

datatype parse_result = Namespace "(string \<times> arg_value) list" | UsageError | Unmodelled

fun parse_tokens ::
  "converters \<Rightarrow> argument list \<Rightarrow> string list \<Rightarrow> (string \<times> arg_value) list \<Rightarrow> parse_result" where
  "parse_tokens cv args [] ns = Namespace ns"
| "parse_tokens cv args (tok # rest) ns =
     (if tok = [] \<or> hd tok \<noteq> CHR ''-''
      then (case parse_tokens cv args rest ns of Namespace ns' \<Rightarrow> UsageError | r \<Rightarrow> r)
      else case find (\<lambda>a. option_string a = tok) args of
             None \<Rightarrow> Unmodelled
           | Some a \<Rightarrow>
               (case action a of
                  StoreTrue \<Rightarrow> parse_tokens cv args rest (AList.update (dest a) (VBool True) ns)
                | Store ty \<Rightarrow>
                    (case rest of
                       [] \<Rightarrow> UsageError
                     | v # rest' \<Rightarrow>
                         if v \<noteq> [] \<and> hd v = CHR ''-'' then Unmodelled
                         else (case convert cv ty v of
                                 None \<Rightarrow> UsageError
                               | Some x \<Rightarrow>
                                   parse_tokens cv args rest' (AList.update (dest a) x ns)))))"

text \<open>\<^verbatim>\<open>arg_parse()\<close>, as a function of the command line \<^verbatim>\<open>sys.argv[1:]\<close>: every
  attribute starts at its default.\<close>

definition arg_parse :: "converters \<Rightarrow> string list \<Rightarrow> parse_result" where
  "arg_parse cv argv =
     parse_tokens cv parser_arguments argv
       (map (\<lambda>a. (dest a, default_value a)) parser_arguments)"

section \<open>Observations on the log\<close>

text \<open>The values logged under one key of the scalar writer, in order.\<close>

fun logged :: "string \<Rightarrow> 'p event list \<Rightarrow> real list" where
  "logged key [] = []"
| "logged key (AddScalar k v step # es) = (if k = key then v # logged key es else logged key es)"
| "logged key (_ # es) = logged key es"

text \<open>
  The progress bar is updated last in every pass of the training batch loop and nowhere
  else, so the last \<open>SetPostfix\<close> of a training epoch's log ends the batch loop:
  \<open>loop_events\<close> is the log up to it, \<open>post_loop_events\<close> what follows it.
\<close>

fun is_set_postfix :: "'p event \<Rightarrow> bool" where
  "is_set_postfix (SetPostfix x) = True"
| "is_set_postfix _ = False"

definition loop_events :: "'p event list \<Rightarrow> 'p event list" where
  "loop_events evs = rev (dropWhile (\<lambda>e. \<not> is_set_postfix e) (rev evs))"

definition post_loop_events :: "'p event list \<Rightarrow> 'p event list" where
  "post_loop_events evs = rev (takeWhile (\<lambda>e. \<not> is_set_postfix e) (rev evs))"

text \<open>The values logged under one key together with the step they are logged at.\<close>

fun logged_at :: "string \<Rightarrow> 'p event list \<Rightarrow> (int \<times> real) list" where
  "logged_at key [] = []"
| "logged_at key (AddScalar k v step # es) =
     (if k = key then (step, v) # logged_at key es else logged_at key es)"
| "logged_at key (_ # es) = logged_at key es"

text \<open>
  \<open>best_saved p\<close> reads from a log, for every validation mIoU that is logged, whether
  a checkpoint is written to the path \<open>p\<close> after it and before the next validation mIoU
  is logged (or the log ends).
\<close>

fun logs_val_miou :: "'p event \<Rightarrow> bool" where
  "logs_val_miou (AddScalar k v step) = (k = ''mIoU/val_miou'')"
| "logs_val_miou _ = False"

fun writes_path :: "string \<Rightarrow> 'p event \<Rightarrow> bool" where
  "writes_path p (TorchSave sd path) = (path = p)"
| "writes_path p _ = False"

fun best_saved :: "string \<Rightarrow> 'p event list \<Rightarrow> bool list" where
  "best_saved p [] = []"
| "best_saved p (e # es) =
     (if logs_val_miou e
      then list_ex (writes_path p) (takeWhile (\<lambda>x. \<not> logs_val_miou x) es) # best_saved p es
      else best_saved p es)"

text \<open>
  What the specification asks of the best-model checkpoint, on the sequence of
  validation scores alone: a score is an improvement when it strictly exceeds the best
  score so far, and exactly then it becomes the best score.
\<close>

fun improvements :: "real \<Rightarrow> real list \<Rightarrow> bool list" where
  "improvements best [] = []"
| "improvements best (v # vs) = (best < v) # improvements (if best < v then v else best) vs"

text \<open>
  The steps of an epoch of \<^verbatim>\<open>fit\<close> as they show in the log: the switch of the network
  to training mode opens a training epoch, the switch to evaluation mode a validation
  epoch, the formatted prints and the empty line are the summary, and a checkpoint is
  any write to a path other than the best-model path \<open>bp\<close>.
\<close>

datatype phase = TrainingEpoch | ValidationEpoch | SummaryLine string | Checkpoint string

fun phase_of :: "string \<Rightarrow> 'p event \<Rightarrow> phase list" where
  "phase_of bp ModelTrain = [TrainingEpoch]"
| "phase_of bp ModelEval = [ValidationEpoch]"
| "phase_of bp (PrintFmt label x) = [SummaryLine label]"
| "phase_of bp (Print s) = (if s = '''' then [SummaryLine ''''] else [])"
| "phase_of bp (TorchSave sd path) = (if path = bp then [] else [Checkpoint path])"
| "phase_of bp _ = []"

definition phases :: "string \<Rightarrow> 'p event list \<Rightarrow> phase list" where
  "phases bp evs = concat (map (phase_of bp) evs)"

definition epoch_phases :: "string \<Rightarrow> phase list" where
  "epoch_phases path =
     [TrainingEpoch, ValidationEpoch, SummaryLine ''Train loss:'', SummaryLine ''Train Mean IOU:'',
      SummaryLine ''Valid loss:'', SummaryLine ''Valid Mean IOU:'', SummaryLine '''',
      Checkpoint path]"

text \<open>
  The per-batch losses of an epoch, from the batches, the loss function and the network
  alone.  In a training epoch the loss of a batch is taken under the parameters current
  at its pass: gradients are zeroed at the start of an accumulation window, accumulated
  by every backward pass, and applied to the parameters at the end of a window.  In a
  validation epoch every loss is taken in evaluation mode under the parameters the
  epoch starts with.
\<close>

fun train_losses ::
  "('p, 'g, 'i, 'l, 'o, 'm) collaborators \<Rightarrow> int \<Rightarrow> nat \<Rightarrow> ('i \<times> 'l list) list \<Rightarrow> 'p \<Rightarrow> 'g
     \<Rightarrow> real list" where
  "train_losses c k i [] p g = []"
| "train_losses c k i ((imgs, segs) # batches) p g =
     (let loss = criterion c (model_forward c True p imgs) segs;
          g = (if int i mod k = 0 then opt_zero c g else g);
          g = autograd c True p imgs segs g;
          p = (if (int i + 1) mod k = 0 then opt_update c p g else p)
      in loss # train_losses c k (Suc i) batches p g)"

definition val_losses ::
  "('p, 'g, 'i, 'l, 'o, 'm) collaborators \<Rightarrow> ('i \<times> 'l list) list \<Rightarrow> 'p \<Rightarrow> real list" where
  "val_losses c batches p =
     map (\<lambda>(imgs, segs). criterion c (model_forward c False p imgs) segs) batches"

section \<open>Auxiliary descriptions used in the proofs\<close>

text \<open>The loss and the predicted labels of one batch under given mode and parameters.\<close>

definition batch_loss_of ::
  "('p, 'g, 'i, 'l, 'o, 'm) collaborators \<Rightarrow> bool \<Rightarrow> 'p \<Rightarrow> 'i \<times> 'l list \<Rightarrow> real" where
  "batch_loss_of c mode p batch = criterion c (model_forward c mode p (fst batch)) (snd batch)"

definition batch_labels_of ::
  "('p, 'g, 'i, 'l, 'o, 'm) collaborators \<Rightarrow> bool \<Rightarrow> 'p \<Rightarrow> 'i \<times> 'l list \<Rightarrow> 'l list" where
  "batch_labels_of c mode p batch = softmax_argmax c (model_forward c mode p (fst batch))"

text \<open>The events of one pass of the training batch loop.\<close>

definition step_events ::
  "('p, 'g, 'i, 'l, 'o, 'm) collaborators \<Rightarrow> int \<Rightarrow> nat \<Rightarrow> 'i \<times> 'l list \<Rightarrow> int \<Rightarrow> real
     \<Rightarrow> ('p, 'g, 'm) world \<Rightarrow> 'p event list" where
  "step_events c k idx batch iters batch_loss w =
     (let loss = criterion c (model_forward c (training w) (params w) (fst batch)) (snd batch) in
      (if int idx mod k = 0 then [ZeroGrad] else []) @ [Backward] @
      (if (int idx + 1) mod k = 0 then [OptimizerStep] else []) @
      [MetricUpdate, AddScalar ''loss/train_loss'' loss (iters + 1),
       SetPostfix ((batch_loss + loss) / (real idx + 1))])"

text \<open>The events of the validation batch loop.\<close>

primrec val_events ::
  "('p, 'g, 'i, 'l, 'o, 'm) collaborators \<Rightarrow> bool \<Rightarrow> 'p \<Rightarrow> int \<Rightarrow> ('i \<times> 'l list) list
     \<Rightarrow> 'p event list" where
  "val_events c mode p iters [] = []"
| "val_events c mode p iters (batch # batches) =
     AddScalar ''loss/val_loss'' (batch_loss_of c mode p batch) (iters + 1)
       # val_events c mode p (iters + 1) batches"

text \<open>Events that are neither a mode switch, a print, a checkpoint write nor the logging
  of a validation mIoU.\<close>

fun quiet :: "'p event \<Rightarrow> bool" where
  "quiet (Print s) = False"
| "quiet (PrintFmt label x) = False"
| "quiet ModelTrain = False"
| "quiet ModelEval = False"
| "quiet (TorchSave sd path) = False"
| "quiet (AddScalar k v step) = (k \<noteq> ''mIoU/val_miou'')"
| "quiet _ = True"

text \<open>The shape of the log of one epoch of \<^verbatim>\<open>fit\<close>, and of a run of epochs with the
  best score threaded through.\<close>

definition epoch_events ::
  "string \<Rightarrow> string \<Rightarrow> int \<Rightarrow> 'p event list \<Rightarrow> 'p event list \<Rightarrow> real \<Rightarrow> bool \<Rightarrow> 'p
     \<Rightarrow> real \<Rightarrow> real \<Rightarrow> real \<Rightarrow> 'p event list" where
  "epoch_events bp ep epoch R V v improved sd trl tri vll =
     ModelTrain # R @ ModelEval # V @ AddScalar ''mIoU/val_miou'' v epoch
       # (if improved then [Print ''Best model saved!'', TorchSave sd bp] else [])
       @ [PrintFmt ''Train loss:'' trl, PrintFmt ''Train Mean IOU:'' tri, PrintFmt ''Valid loss:'' vll,
          PrintFmt ''Valid Mean IOU:'' v, Print '''', TorchSave sd ep]"

inductive fit_shape :: "string \<Rightarrow> (int \<Rightarrow> string) \<Rightarrow> real \<Rightarrow> int list \<Rightarrow> 'p event list \<Rightarrow> bool"
  for bp :: string and ep :: "int \<Rightarrow> string" where
  fit_shape_Nil: "fit_shape bp ep best [] []"
| fit_shape_Cons:
    "list_all quiet R \<Longrightarrow> list_all quiet V
     \<Longrightarrow> fit_shape bp ep (if best < v then v else best) es rest
     \<Longrightarrow> fit_shape bp ep best (e # es)
           (epoch_events bp (ep e) e R V v (best < v) sd trl tri vll @ rest)"

section \<open>A concrete trainer\<close>

text \<open>
  A small instance on which the theorems are exercised: the parameters count the
  optimizer steps taken, the network outputs parameters plus input, and the validation
  score depends on the predicted labels only.
\<close>

definition toy :: "(nat, nat, nat, nat, nat, nat) collaborators" where
  "toy = \<lparr>model_forward = (\<lambda>mode p imgs. p + imgs),
          criterion = (\<lambda>out segs. real out),
          autograd = (\<lambda>mode p imgs segs g. g + 1),
          opt_update = (\<lambda>p g. p + 1),
          opt_zero = (\<lambda>g. 0),
          softmax_argmax = (\<lambda>out. [out]),
          metric_reset = (\<lambda>m. 0),
          metric_update = (\<lambda>preds segs m. m + 1),
          metric_get_score = (\<lambda>m. real m),
          mean_iou_score = (\<lambda>preds segs.
             if preds = [2] then 0.10 else if preds = [4] then 0.25 else 0.20)\<rparr>"

definition toy_world :: "(nat, nat, nat) world" where
  "toy_world = \<lparr>params = 0, grads = 0, training = False, metric_state = 0, trace = []\<rparr>"

definition toy_trainer :: "int \<Rightarrow> nat \<Rightarrow> (nat, nat) trainer" where
  "toy_trainer k n = \<lparr>accumulate_gradient = k, train_loader = replicate n (0, [0]),
     val_loader = [(0, [0])], save_dir = ''models''\<rparr>"

text \<open>Conversions that read the one string \<^verbatim>\<open>"5"\<close>.\<close>

definition toy_converters :: converters where
  "toy_converters = \<lparr>int_of_str = (\<lambda>s. if s = ''5'' then Some 5 else None),
                       float_of_str = (\<lambda>s. None)\<rparr>"

section \<open>The batch loops\<close>

lemma emit_simps [simp]:
  "trace (emit e w) = trace w @ [e]"
  "params (emit e w) = params w"
  "grads (emit e w) = grads w"
  "training (emit e w) = training w"
  "metric_state (emit e w) = metric_state w"
  by (simp_all add: emit_def)

lemma emitted_append: "trace w' = trace w @ evs \<Longrightarrow> emitted w w' = evs"
  by (simp add: emitted_def)

lemma emitted_self [simp]: "emitted w w = []"
  by (simp add: emitted_def)

lemmas world_ops = model_train_def model_eval_def metric_reset_w_def metric_update_w_def
  optimizer_zero_grad_def loss_backward_def optimizer_step_def add_scalar_def save_def

lemma train_step_trace:
  assumes "train_step c k idx batch (iters, batch_loss, w) = Inr (iters', batch_loss', w')"
  shows "trace w' = trace w @ step_events c k idx batch iters batch_loss w"
  using assms
  by (cases batch)
     (auto simp: train_step_def py_mod_def step_events_def Let_def world_ops split: if_splits)

lemma train_step_ok:
  assumes "k \<noteq> 0"
  shows "\<exists>r. train_step c k idx batch (iters, batch_loss, w) = Inr r"
  using assms by (cases batch) (simp add: train_step_def py_mod_def Let_def)

lemma train_step_zero:
  "train_step c 0 idx batch s = Inl ZeroDivisionError"
  by (cases batch; cases s) (simp add: train_step_def py_mod_def Let_def)

lemma emitted_trans:
  "trace w1 = trace w @ a \<Longrightarrow> trace w2 = trace w1 @ b \<Longrightarrow> emitted w w2 = a @ b"
  by (simp add: emitted_def)

lemma train_loop_ConsE:
  assumes "train_loop c k i (batch # batches) (idx, iters, batch_loss, w) = Inr r"
  obtains iters1 batch_loss1 w1 where
    "train_step c k i batch (iters, batch_loss, w) = Inr (iters1, batch_loss1, w1)"
    "train_loop c k (Suc i) batches (Some i, iters1, batch_loss1, w1) = Inr r"
  using assms by (auto split: sum.splits)

lemma train_loop_extends:
  "train_loop c k i batches (idx, iters, batch_loss, w) = Inr (idx', iters', batch_loss', w')
   \<Longrightarrow> \<exists>evs. trace w' = trace w @ evs"
proof (induction batches arbitrary: i idx iters batch_loss w)
  case Nil
  then show ?case by simp
next
  case (Cons batch batches)
  from Cons.prems obtain iters1 batch_loss1 w1 where
    st: "train_step c k i batch (iters, batch_loss, w) = Inr (iters1, batch_loss1, w1)" and
    lp: "train_loop c k (Suc i) batches (Some i, iters1, batch_loss1, w1)
          = Inr (idx', iters', batch_loss', w')"
    by (rule train_loop_ConsE)
  from Cons.IH [OF lp] obtain evs where "trace w' = trace w1 @ evs" ..
  with train_step_trace [OF st] show ?case by simp
qed

lemma train_loop_prefix:
  assumes "train_loop c k i batches (idx, iters, batch_loss, w) = Inr (idx', iters', batch_loss', w')"
  shows "trace w' = trace w @ emitted w w'"
proof -
  from train_loop_extends [OF assms] obtain evs where "trace w' = trace w @ evs" ..
  then show ?thesis by (simp add: emitted_def)
qed

lemma train_loop_emitted_Cons:
  assumes "train_step c k i batch (iters, batch_loss, w) = Inr (iters1, batch_loss1, w1)"
    and "train_loop c k (Suc i) batches (Some i, iters1, batch_loss1, w1)
          = Inr (idx', iters', batch_loss', w')"
  shows "emitted w w' = step_events c k i batch iters batch_loss w @ emitted w1 w'"
  using train_step_trace [OF assms(1)] train_loop_prefix [OF assms(2)]
  by (rule emitted_trans)

lemma train_loop_ok:
  assumes "k \<noteq> 0"
  shows "\<exists>r. train_loop c k i batches (idx, iters, batch_loss, w) = Inr r"
proof (induction batches arbitrary: i idx iters batch_loss w)
  case Nil
  show ?case by simp
next
  case (Cons batch batches)
  from train_step_ok [OF assms] obtain iters1 batch_loss1 w1 where
    "train_step c k i batch (iters, batch_loss, w) = Inr (iters1, batch_loss1, w1)"
    by (metis prod_cases3)
  with Cons.IH [of "Suc i" "Some i" iters1 batch_loss1 w1] show ?case by simp
qed

lemma train_loop_idx:
  "train_loop c k i batches (idx, iters, batch_loss, w) = Inr (idx', iters', batch_loss', w')
   \<Longrightarrow> idx' = (if batches = [] then idx else Some (i + length batches - 1))
     \<and> iters' = iters + int (length batches)"
proof (induction batches arbitrary: i idx iters batch_loss w)
  case Nil
  then show ?case by simp
next
  case (Cons batch batches)
  from Cons.prems obtain iters1 batch_loss1 w1 where
    st: "train_step c k i batch (iters, batch_loss, w) = Inr (iters1, batch_loss1, w1)" and
    lp: "train_loop c k (Suc i) batches (Some i, iters1, batch_loss1, w1)
          = Inr (idx', iters', batch_loss', w')"
    by (rule train_loop_ConsE)
  from st have "iters1 = iters + 1"
    by (cases batch) (auto simp: train_step_def py_mod_def Let_def split: if_splits)
  with Cons.IH [OF lp] show ?case by auto
qed

lemma Suc_mod_int:
  assumes "0 < k"
  shows "((int i + 1) mod k = 0) = (Suc i mod nat k = 0)"
proof -
  have "int (Suc i mod nat k) = int (Suc i) mod int (nat k)"
    by (simp only: zmod_int)
  with assms show ?thesis
    by (metis add.commute int_nat_eq of_nat_0 of_nat_Suc of_nat_eq_iff order_less_imp_le)
qed

lemma count_step_events:
  assumes "0 < k"
  shows "count_list (step_events c k i batch iters batch_loss w) OptimizerStep
         = (if Suc i mod nat k = 0 then 1 else 0)"
  using Suc_mod_int [OF assms, of i] by (simp add: step_events_def Let_def)

lemma train_loop_steps:
  assumes "0 < k"
  shows "train_loop c k i batches (idx, iters, batch_loss, w) = Inr (idx', iters', batch_loss', w')
   \<Longrightarrow> count_list (emitted w w') OptimizerStep = (i + length batches) div nat k - i div nat k"
proof (induction batches arbitrary: i idx iters batch_loss w)
  case Nil
  then show ?case by simp
next
  case (Cons batch batches)
  from Cons.prems obtain iters1 batch_loss1 w1 where
    st: "train_step c k i batch (iters, batch_loss, w) = Inr (iters1, batch_loss1, w1)" and
    lp: "train_loop c k (Suc i) batches (Some i, iters1, batch_loss1, w1)
          = Inr (idx', iters', batch_loss', w')"
    by (rule train_loop_ConsE)
  have mono: "Suc i div nat k \<le> (Suc i + length batches) div nat k"
    by (simp add: div_le_mono)
  have "count_list (emitted w w') OptimizerStep
        = count_list (step_events c k i batch iters batch_loss w) OptimizerStep
          + count_list (emitted w1 w') OptimizerStep"
    by (simp add: train_loop_emitted_Cons [OF st lp])
  also have "\<dots> = (if Suc i mod nat k = 0 then 1 else 0)
          + ((Suc i + length batches) div nat k - Suc i div nat k)"
    by (simp only: count_step_events [OF assms] Cons.IH [OF lp])
  also have "\<dots> = (i + length (batch # batches)) div nat k - i div nat k"
    using mono by (auto simp: div_Suc)
  finally show ?case .
qed

lemma eval_step_eq:
  "eval_step c batch (iters, batch_loss, val_preds, val_segs, w) =
     (iters + 1, batch_loss + batch_loss_of c (training w) (params w) batch,
      val_preds @ [batch_labels_of c (training w) (params w) batch], val_segs @ [snd batch],
      w\<lparr>trace := trace w
         @ [AddScalar ''loss/val_loss'' (batch_loss_of c (training w) (params w) batch) (iters + 1)]\<rparr>)"
  by (cases batch)
     (simp add: eval_step_def Let_def add_scalar_def emit_def batch_loss_of_def batch_labels_of_def)

lemma eval_loop_eq:
  "eval_loop c i batches (idx, iters, batch_loss, val_preds, val_segs, w) =
     (if batches = [] then idx else Some (i + length batches - 1),
      iters + int (length batches),
      batch_loss + sum_list (map (batch_loss_of c (training w) (params w)) batches),
      val_preds @ map (batch_labels_of c (training w) (params w)) batches,
      val_segs @ map snd batches,
      w\<lparr>trace := trace w @ val_events c (training w) (params w) iters batches\<rparr>)"
proof (induction batches arbitrary: i idx iters batch_loss val_preds val_segs w)
  case Nil
  show ?case by simp
next
  case (Cons batch batches)
  show ?case
    by (simp add: eval_step_eq Cons.IH add.assoc)
qed

lemma logged_append [simp]: "logged key (xs @ ys) = logged key xs @ logged key ys"
  by (induction key xs rule: logged.induct) simp_all

lemma quiet_step_events: "list_all quiet (step_events c k i batch iters batch_loss w)"
  by (simp add: step_events_def Let_def)

lemma logged_step_events:
  "logged ''loss/train_loss'' (step_events c k i batch iters batch_loss w)
   = [batch_loss_of c (training w) (params w) batch]"
  by (simp add: step_events_def Let_def batch_loss_of_def)

lemma step_events_last:
  "\<exists>ys x. step_events c k i batch iters batch_loss w = ys @ [SetPostfix x]"
proof -
  have "step_events c k i batch iters batch_loss w
        = butlast (step_events c k i batch iters batch_loss w)
          @ [SetPostfix ((batch_loss + batch_loss_of c (training w) (params w) batch) / (real i + 1))]"
    by (simp add: step_events_def Let_def batch_loss_of_def butlast_append)
  then show ?thesis by blast
qed

lemma train_step_loss:
  assumes "train_step c k idx batch (iters, batch_loss, w) = Inr (iters', batch_loss', w')"
  shows "batch_loss' = batch_loss + batch_loss_of c (training w) (params w) batch"
  using assms
  by (cases batch)
     (auto simp: train_step_def py_mod_def Let_def batch_loss_of_def split: if_splits)

lemma train_loop_quiet:
  "train_loop c k i batches (idx, iters, batch_loss, w) = Inr (idx', iters', batch_loss', w')
   \<Longrightarrow> list_all quiet (emitted w w')"
proof (induction batches arbitrary: i idx iters batch_loss w)
  case Nil
  then show ?case by simp
next
  case (Cons batch batches)
  from Cons.prems obtain iters1 batch_loss1 w1 where
    st: "train_step c k i batch (iters, batch_loss, w) = Inr (iters1, batch_loss1, w1)" and
    lp: "train_loop c k (Suc i) batches (Some i, iters1, batch_loss1, w1)
          = Inr (idx', iters', batch_loss', w')"
    by (rule train_loop_ConsE)
  show ?case
    by (simp add: train_loop_emitted_Cons [OF st lp] quiet_step_events Cons.IH [OF lp])
qed

lemma train_loop_loss:
  "train_loop c k i batches (idx, iters, batch_loss, w) = Inr (idx', iters', batch_loss', w')
   \<Longrightarrow> batch_loss' = batch_loss + sum_list (logged ''loss/train_loss'' (emitted w w'))"
proof (induction batches arbitrary: i idx iters batch_loss w)
  case Nil
  then show ?case by simp
next
  case (Cons batch batches)
  from Cons.prems obtain iters1 batch_loss1 w1 where
    st: "train_step c k i batch (iters, batch_loss, w) = Inr (iters1, batch_loss1, w1)" and
    lp: "train_loop c k (Suc i) batches (Some i, iters1, batch_loss1, w1)
          = Inr (idx', iters', batch_loss', w')"
    by (rule train_loop_ConsE)
  show ?case
    by (simp add: train_loop_emitted_Cons [OF st lp] logged_step_events Cons.IH [OF lp]
        train_step_loss [OF st])
qed

lemma train_loop_last:
  "train_loop c k i batches (idx, iters, batch_loss, w) = Inr (idx', iters', batch_loss', w')
   \<Longrightarrow> batches \<noteq> [] \<Longrightarrow> \<exists>ys x. emitted w w' = ys @ [SetPostfix x]"
proof (induction batches arbitrary: i idx iters batch_loss w)
  case Nil
  then show ?case by simp
next
  case (Cons batch batches)
  from Cons.prems(1) obtain iters1 batch_loss1 w1 where
    st: "train_step c k i batch (iters, batch_loss, w) = Inr (iters1, batch_loss1, w1)" and
    lp: "train_loop c k (Suc i) batches (Some i, iters1, batch_loss1, w1)
          = Inr (idx', iters', batch_loss', w')"
    by (rule train_loop_ConsE)
  note split = train_loop_emitted_Cons [OF st lp]
  show ?case
  proof (cases "batches = []")
    case True
    with lp have "w' = w1" by simp
    with split step_events_last [of c k i batch iters batch_loss w] show ?thesis by simp
  next
    case False
    from Cons.IH [OF lp False] obtain ys x where "emitted w1 w' = ys @ [SetPostfix x]" by blast
    with split have "emitted w w' = (step_events c k i batch iters batch_loss w @ ys) @ [SetPostfix x]"
      by simp
    then show ?thesis by blast
  qed
qed

lemma post_loop_events_eq:
  assumes "list_all (\<lambda>e. \<not> is_set_postfix e) post"
  shows "post_loop_events (pre @ SetPostfix x # post) = post"
proof -
  have "takeWhile (\<lambda>e. \<not> is_set_postfix e) (rev post @ SetPostfix x # rev pre) = rev post"
    using assms by (simp add: takeWhile_tail list_all_iff)
  then show ?thesis by (simp add: post_loop_events_def)
qed

lemma run_one_epoch_cases:
  assumes "run_one_epoch c self epoch iters w = Inr ((avg, score, iters'), w')"
  obtains idx batch_loss w1 where
    "train_loop c (accumulate_gradient self) 0 (train_loader self)
       (None, iters, 0, metric_reset_w c (model_train w)) = Inr (Some idx, iters', batch_loss, w1)"
    "w' = add_scalar ''mIoU/train_miou'' score epoch
            (if int idx mod 4 = 0 then optimizer_zero_grad c (optimizer_step c w1) else w1)"
    "avg = batch_loss / (real idx + 1)"
  using assms
  by (auto simp: run_one_epoch_def Let_def world_ops split: sum.splits option.splits if_splits)

lemma run_one_epoch_shape:
  assumes "run_one_epoch c self epoch iters w = Inr ((avg, score, iters'), w')"
  shows "train_loader self \<noteq> [] \<and>
    (\<exists>L x. emitted w w' =
        [ModelTrain, MetricReset] @ L @ [SetPostfix x]
        @ (if (int (length (train_loader self)) - 1) mod 4 = 0 then [OptimizerStep, ZeroGrad] else [])
        @ [AddScalar ''mIoU/train_miou'' score epoch]
      \<and> list_all quiet L
      \<and> avg = sum_list (logged ''loss/train_loss'' L) / real (length (train_loader self))
      \<and> (0 < accumulate_gradient self \<longrightarrow>
            count_list L OptimizerStep
            = length (train_loader self) div nat (accumulate_gradient self)))"
proof -
  let ?w0 = "metric_reset_w c (model_train w)"
  let ?n = "length (train_loader self)"
  from assms obtain idx batch_loss w1 where
    lp: "train_loop c (accumulate_gradient self) 0 (train_loader self) (None, iters, 0, ?w0)
          = Inr (Some idx, iters', batch_loss, w1)" and
    w': "w' = add_scalar ''mIoU/train_miou'' score epoch
            (if int idx mod 4 = 0 then optimizer_zero_grad c (optimizer_step c w1) else w1)" and
    avg: "avg = batch_loss / (real idx + 1)"
    by (rule run_one_epoch_cases)
  from train_loop_idx [OF lp] have ne: "train_loader self \<noteq> []" and idx: "idx = ?n - 1"
    by (auto split: if_splits)
  from ne have n: "0 < ?n" by simp
  from train_loop_last [OF lp ne] obtain L x where L: "emitted ?w0 w1 = L @ [SetPostfix x]"
    by blast
  have t1: "trace w1 = trace w @ [ModelTrain, MetricReset] @ L @ [SetPostfix x]"
    using train_loop_prefix [OF lp] L by (simp add: world_ops)
  have ii: "int idx = int ?n - 1"
    using ne idx by (cases "train_loader self") simp_all
  have idx4: "(int idx mod 4 = 0) = ((int ?n - 1) mod 4 = 0)"
    by (simp only: ii)
  have "trace w' = trace w @ [ModelTrain, MetricReset] @ L @ [SetPostfix x]
        @ (if (int ?n - 1) mod 4 = 0 then [OptimizerStep, ZeroGrad] else [])
        @ [AddScalar ''mIoU/train_miou'' score epoch]"
    using t1 idx4 by (simp add: w' world_ops)
  then have e: "emitted w w' = [ModelTrain, MetricReset] @ L @ [SetPostfix x]
        @ (if (int ?n - 1) mod 4 = 0 then [OptimizerStep, ZeroGrad] else [])
        @ [AddScalar ''mIoU/train_miou'' score epoch]"
    by (rule emitted_append)
  have q: "list_all quiet L"
    using train_loop_quiet [OF lp] L by simp
  have "batch_loss = sum_list (logged ''loss/train_loss'' L)"
    using train_loop_loss [OF lp] L by simp
  moreover have "real idx + 1 = real ?n"
    using ne idx by (cases "train_loader self") simp_all
  ultimately have a: "avg = sum_list (logged ''loss/train_loss'' L) / real ?n"
    using avg by simp
  have s: "0 < accumulate_gradient self \<longrightarrow>
            count_list L OptimizerStep = ?n div nat (accumulate_gradient self)"
  proof
    assume "0 < accumulate_gradient self"
    from train_loop_steps [OF this lp] L show
      "count_list L OptimizerStep = ?n div nat (accumulate_gradient self)"
      by simp
  qed
  from ne e q a s show ?thesis by blast
qed

lemma run_one_epoch_ok:
  assumes "train_loader self \<noteq> []" and "accumulate_gradient self \<noteq> 0"
  shows "\<exists>avg score iters' w'. run_one_epoch c self epoch iters w = Inr ((avg, score, iters'), w')"
proof -
  let ?w0 = "metric_reset_w c (model_train w)"
  from train_loop_ok [OF assms(2)] obtain idx iters' batch_loss w1 where
    lp: "train_loop c (accumulate_gradient self) 0 (train_loader self) (None, iters, 0, ?w0)
          = Inr (idx, iters', batch_loss, w1)"
    by (metis prod_cases4)
  from train_loop_idx [OF lp] assms(1) obtain j where "idx = Some j" by simp
  with lp show ?thesis
    by (simp add: run_one_epoch_def Let_def)
qed

lemma run_one_epoch_empty:
  assumes "train_loader self = []"
  shows "run_one_epoch c self epoch iters w = Inl UnboundLocalError"
  using assms by (simp add: run_one_epoch_def Let_def)

lemma eval_one_epoch_eq:
  assumes "val_loader self \<noteq> []"
  shows "eval_one_epoch c self epoch iters best_iou w =
     (let batches = val_loader self;
          val_iou = mean_iou_score c (concat (map (batch_labels_of c False (params w)) batches))
                      (concat (map snd batches))
      in Inr ((sum_list (map (batch_loss_of c False (params w)) batches) / real (length batches),
               val_iou, iters + int (length batches),
               if best_iou < val_iou then val_iou else best_iou),
              w\<lparr>training := False, metric_state := metric_reset c (metric_state w),
                trace := trace w @ [ModelEval, MetricReset]
                  @ val_events c False (params w) iters batches
                  @ [AddScalar ''mIoU/val_miou'' val_iou epoch]
                  @ (if best_iou < val_iou
                     then [Print ''Best model saved!'', TorchSave (params w) (best_path self)]
                     else [])\<rparr>))"
proof -
  have "real (length (val_loader self) - 1) + 1 = real (length (val_loader self))"
    using assms by (cases "val_loader self") simp_all
  with assms show ?thesis
    by (simp add: eval_one_epoch_def Let_def eval_loop_eq np_concatenate_def world_ops emit_def)
qed

lemma eval_one_epoch_empty:
  assumes "val_loader self = []"
  shows "eval_one_epoch c self epoch iters best_iou w = Inl ValueError"
  using assms by (simp add: eval_one_epoch_def Let_def np_concatenate_def)

lemma loop_events_eq:
  assumes "list_all (\<lambda>e. \<not> is_set_postfix e) post"
  shows "loop_events (pre @ SetPostfix x # post) = pre @ [SetPostfix x]"
proof -
  have "\<And>e. e \<in> set (rev post) \<Longrightarrow> \<not> is_set_postfix e"
    using assms by (simp add: list_all_iff)
  then have "dropWhile (\<lambda>e. \<not> is_set_postfix e) (rev post @ SetPostfix x # rev pre)
        = dropWhile (\<lambda>e. \<not> is_set_postfix e) (SetPostfix x # rev pre)"
    by (rule dropWhile_append2)
  then show ?thesis by (simp add: loop_events_def)
qed

lemma step_events_members:
  "(ZeroGrad \<in> set (step_events c k idx batch iters batch_loss w)) = (int idx mod k = 0)"
  "(OptimizerStep \<in> set (step_events c k idx batch iters batch_loss w)) = ((int idx + 1) mod k = 0)"
  by (simp_all add: step_events_def Let_def)

lemma run_one_epoch_loop_part:
  assumes "run_one_epoch c self epoch iters w = Inr ((avg, score, iters'), w')"
  shows "\<exists>L x. loop_events (emitted w w') = [ModelTrain, MetricReset] @ L @ [SetPostfix x]
      \<and> post_loop_events (emitted w w') =
          (if (int (length (train_loader self)) - 1) mod 4 = 0 then [OptimizerStep, ZeroGrad] else [])
          @ [AddScalar ''mIoU/train_miou'' score epoch]
      \<and> (0 < accumulate_gradient self \<longrightarrow>
            count_list L OptimizerStep
            = length (train_loader self) div nat (accumulate_gradient self))"
proof -
  let ?post = "(if (int (length (train_loader self)) - 1) mod 4 = 0 then [OptimizerStep, ZeroGrad] else [])
          @ [AddScalar ''mIoU/train_miou'' score epoch]"
  from run_one_epoch_shape [OF assms] obtain L x where
    e: "emitted w w' = ([ModelTrain, MetricReset] @ L) @ SetPostfix x # ?post" and
    s: "0 < accumulate_gradient self \<longrightarrow>
            count_list L OptimizerStep = length (train_loader self) div nat (accumulate_gradient self)"
    by auto
  have p: "list_all (\<lambda>e. \<not> is_set_postfix e) ?post" by simp
  have "loop_events (([ModelTrain, MetricReset] @ L) @ SetPostfix x # ?post)
        = ([ModelTrain, MetricReset] @ L) @ [SetPostfix x]"
    using p by (rule loop_events_eq)
  then have "loop_events (emitted w w') = [ModelTrain, MetricReset] @ L @ [SetPostfix x]"
    by (simp only: e append_assoc)
  moreover have "post_loop_events (emitted w w') = ?post"
    unfolding e by (rule post_loop_events_eq [OF p])
  ultimately show ?thesis using s by blast
qed

text \<open>
  Claim C2.  With \<^verbatim>\<open>accumulate_gradient = k\<close>, \<open>k\<close> positive, the pass of the batch
  loop at index \<open>idx\<close> completes, zeroes the gradients exactly when \<open>idx mod k = 0\<close> and
  steps the optimizer exactly when \<open>(idx + 1) mod k = 0\<close>; the batch loop over \<open>n\<close>
  batches completes with \<open>n div k\<close> optimizer steps.  (With \<open>k = 0\<close> the first pass
  raises \<^verbatim>\<open>ZeroDivisionError\<close>, see \<open>train_step_zero\<close>.)
\<close>

theorem accumulation_schedule:
  assumes "0 < k"
  shows "(\<exists>iters' batch_loss' w'.
            train_step c k idx batch (iters, batch_loss, w) = Inr (iters', batch_loss', w')
            \<and> (ZeroGrad \<in> set (emitted w w')) = (int idx mod k = 0)
            \<and> (OptimizerStep \<in> set (emitted w w')) = ((int idx + 1) mod k = 0))
       \<and> (\<exists>idx' iters' batch_loss' w'.
            train_loop c k 0 batches (None, iters, batch_loss, w) = Inr (idx', iters', batch_loss', w')
            \<and> int (count_list (emitted w w') OptimizerStep) = int (length batches) div k)"
proof
  from assms have "k \<noteq> 0" by simp
  from train_step_ok [OF this] obtain iters' batch_loss' w' where
    st: "train_step c k idx batch (iters, batch_loss, w) = Inr (iters', batch_loss', w')"
    by (metis prod_cases3)
  have "emitted w w' = step_events c k idx batch iters batch_loss w"
    using train_step_trace [OF st] by (rule emitted_append)
  with st show "\<exists>iters' batch_loss' w'.
            train_step c k idx batch (iters, batch_loss, w) = Inr (iters', batch_loss', w')
            \<and> (ZeroGrad \<in> set (emitted w w')) = (int idx mod k = 0)
            \<and> (OptimizerStep \<in> set (emitted w w')) = ((int idx + 1) mod k = 0)"
    by (simp add: step_events_members)
next
  from assms have "k \<noteq> 0" by simp
  from train_loop_ok [OF this] obtain idx' iters' batch_loss' w' where
    lp: "train_loop c k 0 batches (None, iters, batch_loss, w) = Inr (idx', iters', batch_loss', w')"
    by (metis prod_cases4)
  have "count_list (emitted w w') OptimizerStep = length batches div nat k"
    using train_loop_steps [OF assms lp] by simp
  then have "int (count_list (emitted w w') OptimizerStep) = int (length batches) div k"
    using assms by (simp add: zdiv_int)
  with lp show "\<exists>idx' iters' batch_loss' w'.
            train_loop c k 0 batches (None, iters, batch_loss, w) = Inr (idx', iters', batch_loss', w')
            \<and> int (count_list (emitted w w') OptimizerStep) = int (length batches) div k"
    by blast
qed

theorem accumulation_schedule_witness:
  "(0::int) < 2
   \<and> (\<exists>iters' batch_loss' w'.
         train_step toy 2 1 (0, [0]) (0, 0, toy_world) = Inr (iters', batch_loss', w')
         \<and> ZeroGrad \<notin> set (emitted toy_world w')
         \<and> OptimizerStep \<in> set (emitted toy_world w'))
   \<and> (\<exists>idx' iters' batch_loss' w'.
         train_loop toy 2 0 (replicate 5 (0, [0])) (None, 0, 0, toy_world)
           = Inr (idx', iters', batch_loss', w')
         \<and> count_list (emitted toy_world w') OptimizerStep = 2)"
  using accumulation_schedule [of 2 toy 1 "(0, [0])" 0 0 toy_world "replicate 5 (0, [0])"]
  by simp

section \<open>The training epoch as a whole\<close>

lemma logged_val_events:
  "logged ''loss/val_loss'' (val_events c mode p iters batches) = map (batch_loss_of c mode p) batches"
  by (induction batches arbitrary: iters) simp_all

lemma quiet_val_events: "list_all quiet (val_events c mode p iters batches)"
  by (induction batches arbitrary: iters) simp_all

lemma logged_quiet: "list_all quiet evs \<Longrightarrow> logged ''mIoU/val_miou'' evs = []"
  by (induction "''mIoU/val_miou''" evs rule: logged.induct) simp_all

lemma val_events_kinds:
  "e \<in> set (val_events c mode p iters batches) \<Longrightarrow> \<exists>v step. e = AddScalar ''loss/val_loss'' v step"
  by (induction batches arbitrary: iters) auto



lemma count_list_filter: "P x \<Longrightarrow> count_list (filter P xs) x = count_list xs x"
  by (induction xs) auto

lemma marks_step_events:
  "filter (\<lambda>e. e = Backward \<or> e = OptimizerStep) (step_events c k i batch iters batch_loss w)
   = Backward # (if (int i + 1) mod k = 0 then [OptimizerStep] else [])"
  by (simp add: step_events_def Let_def)

lemma train_loop_marks:
  "train_loop c k i batches (idx, iters, batch_loss, w) = Inr (idx', iters', batch_loss', w')
   \<Longrightarrow> filter (\<lambda>e. e = Backward \<or> e = OptimizerStep) (emitted w w')
       = concat (map (\<lambda>j. Backward # (if (int j + 1) mod k = 0 then [OptimizerStep] else []))
           [i..<i + length batches])"
proof (induction batches arbitrary: i idx iters batch_loss w)
  case Nil
  then show ?case by simp
next
  case (Cons batch batches)
  from Cons.prems obtain iters1 batch_loss1 w1 where
    st: "train_step c k i batch (iters, batch_loss, w) = Inr (iters1, batch_loss1, w1)" and
    lp: "train_loop c k (Suc i) batches (Some i, iters1, batch_loss1, w1)
          = Inr (idx', iters', batch_loss', w')"
    by (rule train_loop_ConsE)
  have "i < i + length (batch # batches)"
    by simp
  then have "[i..<i + length (batch # batches)] = i # [Suc i..<i + length (batch # batches)]"
    by (rule upt_conv_Cons)
  then have "[i..<i + length (batch # batches)] = i # [Suc i..<Suc i + length batches]"
    by simp
  then show ?case
    by (simp only: train_loop_emitted_Cons [OF st lp] filter_append marks_step_events
        Cons.IH [OF lp] list.map concat.simps append_Cons append_Nil)
qed

lemma run_one_epoch_split:
  assumes "run_one_epoch c self epoch iters w = Inr ((avg, score, iters'), w')"
  shows "\<exists>idx batch_loss w1.
     train_loop c (accumulate_gradient self) 0 (train_loader self)
       (None, iters, 0, metric_reset_w c (model_train w)) = Inr (Some idx, iters', batch_loss, w1)
     \<and> emitted w w' = [ModelTrain, MetricReset] @ emitted (metric_reset_w c (model_train w)) w1
         @ (if (int (length (train_loader self)) - 1) mod 4 = 0 then [OptimizerStep, ZeroGrad] else [])
         @ [AddScalar ''mIoU/train_miou'' score epoch]"
proof -
  let ?w0 = "metric_reset_w c (model_train w)"
  from assms obtain idx batch_loss w1 where
    lp: "train_loop c (accumulate_gradient self) 0 (train_loader self) (None, iters, 0, ?w0)
          = Inr (Some idx, iters', batch_loss, w1)" and
    w': "w' = add_scalar ''mIoU/train_miou'' score epoch
            (if int idx mod 4 = 0 then optimizer_zero_grad c (optimizer_step c w1) else w1)"
    by (rule run_one_epoch_cases)
  from train_loop_idx [OF lp] have ne: "train_loader self \<noteq> []"
    and idx: "idx = length (train_loader self) - 1"
    by (auto split: if_splits)
  have ii: "int idx = int (length (train_loader self)) - 1"
    using ne idx by (cases "train_loader self") simp_all
  have "trace w1 = trace w @ [ModelTrain, MetricReset] @ emitted ?w0 w1"
    using train_loop_prefix [OF lp] by (simp add: world_ops)
  then have "trace w' = trace w @ [ModelTrain, MetricReset] @ emitted ?w0 w1
         @ (if (int (length (train_loader self)) - 1) mod 4 = 0 then [OptimizerStep, ZeroGrad] else [])
         @ [AddScalar ''mIoU/train_miou'' score epoch]"
    by (simp add: w' ii world_ops)
  then have "emitted w w' = [ModelTrain, MetricReset] @ emitted ?w0 w1
         @ (if (int (length (train_loader self)) - 1) mod 4 = 0 then [OptimizerStep, ZeroGrad] else [])
         @ [AddScalar ''mIoU/train_miou'' score epoch]"
    by (rule emitted_append)
  with lp show ?thesis by blast
qed

text \<open>
  Claim C4.  With four training batches and \<^verbatim>\<open>accumulate_gradient = 2\<close> the training
  epoch completes; its backward passes and optimizer steps come in the order
  backward, backward, step, backward, backward, step (steps in the passes of index 1 and
  3), it steps the optimizer exactly twice, and no step follows the batch loop.
\<close>

theorem four_batches_two_steps:
  fixes w :: "('p, 'g, 'm) world"
  assumes "length (train_loader self) = 4" and "accumulate_gradient self = 2"
  shows "\<exists>r w'. run_one_epoch c self epoch iters w = Inr (r, w')
           \<and> filter (\<lambda>e. e = Backward \<or> e = OptimizerStep) (emitted w w')
               = [Backward, Backward, OptimizerStep, Backward, Backward, OptimizerStep]
           \<and> count_list (emitted w w') OptimizerStep = 2
           \<and> OptimizerStep \<notin> set (post_loop_events (emitted w w'))"
proof -
  let ?P = "\<lambda>e::'p event. e = Backward \<or> e = OptimizerStep"
  let ?w0 = "metric_reset_w c (model_train w)"
  from assms have "train_loader self \<noteq> []" and "accumulate_gradient self \<noteq> 0"
    by auto
  from run_one_epoch_ok [OF this] obtain avg score iters' w' where
    run: "run_one_epoch c self epoch iters w = Inr ((avg, score, iters'), w')"
    by blast
  from run_one_epoch_split [OF run] assms obtain idx batch_loss w1 where
    lp: "train_loop c 2 0 (train_loader self) (None, iters, 0, ?w0)
          = Inr (Some idx, iters', batch_loss, w1)" and
    e: "emitted w w' = [ModelTrain, MetricReset] @ emitted ?w0 w1
          @ [AddScalar ''mIoU/train_miou'' score epoch]"
    by auto
  have "[0..<4] = [0, 1, 2, 3::nat]"
    by code_simp
  then have upt: "[0..<0 + length (train_loader self)] = [0, 1, 2, 3]"
    by (simp only: assms(1) add_0)
  have m: "filter ?P (emitted ?w0 w1)
           = [Backward, Backward, OptimizerStep, Backward, Backward, OptimizerStep]"
    unfolding train_loop_marks [OF lp] upt by simp
  have f: "filter ?P (emitted w w')
           = [Backward, Backward, OptimizerStep, Backward, Backward, OptimizerStep]"
    unfolding e by (simp add: m)
  have "count_list (filter ?P (emitted w w')) OptimizerStep = count_list (emitted w w') OptimizerStep"
    by (rule count_list_filter) simp
  with f have n: "count_list (emitted w w') OptimizerStep = 2"
    by simp
  from run_one_epoch_loop_part [OF run] assms(1) have
    "post_loop_events (emitted w w') = [AddScalar ''mIoU/train_miou'' score epoch]"
    by auto
  then have "OptimizerStep \<notin> set (post_loop_events (emitted w w'))"
    by simp
  with run f n show ?thesis by blast
qed

theorem four_batches_two_steps_witness:
  "length (train_loader (toy_trainer 2 4)) = 4
   \<and> accumulate_gradient (toy_trainer 2 4) = 2
   \<and> (\<exists>r w'. run_one_epoch toy (toy_trainer 2 4) 1 (- 1) toy_world = Inr (r, w')
           \<and> filter (\<lambda>e. e = Backward \<or> e = OptimizerStep) (emitted toy_world w')
               = [Backward, Backward, OptimizerStep, Backward, Backward, OptimizerStep]
           \<and> count_list (emitted toy_world w') OptimizerStep = 2
           \<and> OptimizerStep \<notin> set (post_loop_events (emitted toy_world w')))"
proof -
  have l: "length (train_loader (toy_trainer 2 4)) = 4"
    by (simp add: toy_trainer_def)
  have k: "accumulate_gradient (toy_trainer 2 4) = 2"
    by (simp add: toy_trainer_def)
  from four_batches_two_steps [OF l k, of toy 1 "- 1" toy_world] l k show ?thesis
    by blast
qed

text \<open>
  The optimizer steps of a whole training epoch: with \<open>n\<close> batches, \<open>n\<close> at least one,
  and a positive \<^verbatim>\<open>accumulate_gradient = k\<close>, the epoch completes and steps the
  optimizer \<open>n div k\<close> times in the batch loop plus once more when \<open>(n - 1) mod 4 = 0\<close>,
  whether or not the last accumulation window is complete (five batches with \<open>k = 5\<close>
  give two steps).
\<close>

theorem optimizer_steps_per_epoch:
  assumes "train_loader self \<noteq> []" and "0 < accumulate_gradient self"
  shows "\<exists>r w'. run_one_epoch c self epoch iters w = Inr (r, w')
     \<and> int (count_list (emitted w w') OptimizerStep)
         = int (length (train_loader self)) div accumulate_gradient self
           + (if (int (length (train_loader self)) - 1) mod 4 = 0 then 1 else 0)"
proof -
  let ?n = "length (train_loader self)"
  let ?k = "accumulate_gradient self"
  from assms(2) have "?k \<noteq> 0" by simp
  from run_one_epoch_ok [OF assms(1) this] obtain avg score iters' w' where
    run: "run_one_epoch c self epoch iters w = Inr ((avg, score, iters'), w')"
    by blast
  from run_one_epoch_shape [OF run] assms(2) obtain L x where
    e: "emitted w w' =
        [ModelTrain, MetricReset] @ L @ [SetPostfix x]
        @ (if (int ?n - 1) mod 4 = 0 then [OptimizerStep, ZeroGrad] else [])
        @ [AddScalar ''mIoU/train_miou'' score epoch]" and
    s: "count_list L OptimizerStep = ?n div nat ?k"
    by blast
  have "count_list (emitted w w') OptimizerStep
        = ?n div nat ?k + (if (int ?n - 1) mod 4 = 0 then 1 else 0)"
    unfolding e by (simp add: s)
  moreover have "int (?n div nat ?k) = int ?n div ?k"
    using assms(2) by (simp add: zdiv_int)
  ultimately have "int (count_list (emitted w w') OptimizerStep)
         = int ?n div ?k + (if (int ?n - 1) mod 4 = 0 then 1 else 0)"
    by simp
  with run show ?thesis by blast
qed

theorem optimizer_steps_per_epoch_witness:
  "train_loader (toy_trainer 5 5) \<noteq> [] \<and> 0 < accumulate_gradient (toy_trainer 5 5)
   \<and> (\<exists>r w'. run_one_epoch toy (toy_trainer 5 5) 1 (- 1) toy_world = Inr (r, w')
         \<and> count_list (emitted toy_world w') OptimizerStep = 2)"
  using optimizer_steps_per_epoch [of "toy_trainer 5 5" toy 1 "- 1" toy_world]
  by (simp add: toy_trainer_def)

section \<open>Empty loaders, average losses and the validation epoch\<close>

lemma logged_train_loss_epoch:
  assumes "run_one_epoch c self epoch iters w = Inr ((avg, score, iters'), w')"
  shows "train_loader self \<noteq> [] \<and>
    avg = sum_list (logged ''loss/train_loss'' (emitted w w')) / real (length (train_loader self))"
proof -
  from run_one_epoch_shape [OF assms] obtain L x where
    ne: "train_loader self \<noteq> []" and
    e: "emitted w w' =
        [ModelTrain, MetricReset] @ L @ [SetPostfix x]
        @ (if (int (length (train_loader self)) - 1) mod 4 = 0 then [OptimizerStep, ZeroGrad] else [])
        @ [AddScalar ''mIoU/train_miou'' score epoch]" and
    a: "avg = sum_list (logged ''loss/train_loss'' L) / real (length (train_loader self))"
    by blast
  have "logged ''loss/train_loss'' (emitted w w') = logged ''loss/train_loss'' L"
    unfolding e by simp
  with ne a show ?thesis by simp
qed

lemma train_step_state:
  assumes "train_step c k i (imgs, segs) (iters, batch_loss, w) = Inr (iters', batch_loss', w')"
  shows "training w' = training w"
    and "grads w' = autograd c (training w) (params w) imgs segs
                      (if int i mod k = 0 then opt_zero c (grads w) else grads w)"
    and "params w' = (if (int i + 1) mod k = 0 then opt_update c (params w) (grads w')
                      else params w)"
    and "batch_loss' = batch_loss
           + criterion c (model_forward c (training w) (params w) imgs) segs"
  using assms
  by (auto simp: train_step_def py_mod_def Let_def world_ops emit_def split: if_splits)

lemma train_loop_losses:
  "train_loop c k i batches (idx, iters, batch_loss, w) = Inr (idx', iters', batch_loss', w')
   \<Longrightarrow> training w
   \<Longrightarrow> batch_loss' = batch_loss + sum_list (train_losses c k i batches (params w) (grads w))"
proof (induction batches arbitrary: i idx iters batch_loss w)
  case Nil
  then show ?case by simp
next
  case (Cons batch batches)
  obtain imgs segs where b: "batch = (imgs, segs)" by (cases batch)
  from Cons.prems(1) obtain iters1 batch_loss1 w1 where
    st: "train_step c k i (imgs, segs) (iters, batch_loss, w) = Inr (iters1, batch_loss1, w1)" and
    lp: "train_loop c k (Suc i) batches (Some i, iters1, batch_loss1, w1)
          = Inr (idx', iters', batch_loss', w')"
    unfolding b by (rule train_loop_ConsE)
  note s = train_step_state [OF st]
  from s(1) Cons.prems(2) have t1: "training w1" by simp
  from Cons.IH [OF lp t1] have
    "batch_loss' = batch_loss1 + sum_list (train_losses c k (Suc i) batches (params w1) (grads w1))" .
  with s Cons.prems(2) show ?case
    by (simp add: b Let_def)
qed

lemma run_one_epoch_losses:
  assumes "run_one_epoch c self epoch iters w = Inr ((avg, score, iters'), w')"
  shows "avg = sum_list (train_losses c (accumulate_gradient self) 0 (train_loader self)
                  (params w) (grads w))
               / real (length (train_loader self))"
proof -
  let ?w0 = "metric_reset_w c (model_train w)"
  from assms obtain idx batch_loss w1 where
    lp: "train_loop c (accumulate_gradient self) 0 (train_loader self) (None, iters, 0, ?w0)
          = Inr (Some idx, iters', batch_loss, w1)" and
    avg: "avg = batch_loss / (real idx + 1)"
    by (rule run_one_epoch_cases)
  have w0: "training ?w0" "params ?w0 = params w" "grads ?w0 = grads w"
    by (simp_all add: world_ops)
  from train_loop_losses [OF lp w0(1)] have
    "batch_loss = sum_list (train_losses c (accumulate_gradient self) 0 (train_loader self)
                    (params w) (grads w))"
    by (simp add: w0)
  moreover from train_loop_idx [OF lp] have ne: "train_loader self \<noteq> []"
    and idx: "idx = length (train_loader self) - 1"
    by (auto split: if_splits)
  then have "real idx + 1 = real (length (train_loader self))"
    by (cases "train_loader self") simp_all
  ultimately show ?thesis using avg by simp
qed

lemma train_losses_constant:
  assumes "\<And>out segs. criterion c out segs = v"
  shows "train_losses c k i batches p g = replicate (length batches) v"
proof (induction batches arbitrary: i p g)
  case Nil
  show ?case by simp
next
  case (Cons batch batches)
  then show ?case by (cases batch) (simp add: assms Let_def)
qed

lemma train_loop_logged_losses:
  "train_loop c k i batches (idx, iters, batch_loss, w) = Inr (idx', iters', batch_loss', w')
   \<Longrightarrow> training w
   \<Longrightarrow> logged ''loss/train_loss'' (emitted w w')
       = train_losses c k i batches (params w) (grads w)"
proof (induction batches arbitrary: i idx iters batch_loss w)
  case Nil
  then show ?case by simp
next
  case (Cons batch batches)
  obtain imgs segs where b: "batch = (imgs, segs)" by (cases batch)
  from Cons.prems(1) obtain iters1 batch_loss1 w1 where
    st: "train_step c k i (imgs, segs) (iters, batch_loss, w) = Inr (iters1, batch_loss1, w1)" and
    lp: "train_loop c k (Suc i) batches (Some i, iters1, batch_loss1, w1)
          = Inr (idx', iters', batch_loss', w')"
    unfolding b by (rule train_loop_ConsE)
  note s = train_step_state [OF st]
  from s(1) Cons.prems(2) have t1: "training w1" by simp
  have "logged ''loss/train_loss'' (emitted w w')
        = batch_loss_of c (training w) (params w) (imgs, segs)
          # train_losses c k (Suc i) batches (params w1) (grads w1)"
    by (simp add: train_loop_emitted_Cons [OF st lp] logged_step_events Cons.IH [OF lp t1])
  with s Cons.prems(2) show ?case
    by (simp add: b Let_def batch_loss_of_def)
qed

lemma run_one_epoch_logged_losses:
  assumes "run_one_epoch c self epoch iters w = Inr ((avg, score, iters'), w')"
  shows "logged ''loss/train_loss'' (emitted w w')
         = train_losses c (accumulate_gradient self) 0 (train_loader self) (params w) (grads w)"
proof -
  let ?w0 = "metric_reset_w c (model_train w)"
  from run_one_epoch_split [OF assms] obtain idx batch_loss w1 where
    lp: "train_loop c (accumulate_gradient self) 0 (train_loader self) (None, iters, 0, ?w0)
          = Inr (Some idx, iters', batch_loss, w1)" and
    e: "emitted w w' = [ModelTrain, MetricReset] @ emitted ?w0 w1
         @ (if (int (length (train_loader self)) - 1) mod 4 = 0 then [OptimizerStep, ZeroGrad] else [])
         @ [AddScalar ''mIoU/train_miou'' score epoch]"
    by blast
  have w0: "training ?w0" "params ?w0 = params w" "grads ?w0 = grads w"
    by (simp_all add: world_ops)
  have "logged ''loss/train_loss'' (emitted w w') = logged ''loss/train_loss'' (emitted ?w0 w1)"
    unfolding e by simp
  with train_loop_logged_losses [OF lp w0(1)] show ?thesis
    by (simp add: w0)
qed

lemma val_losses_eq: "val_losses c batches p = map (batch_loss_of c False p) batches"
  by (simp add: val_losses_def batch_loss_of_def fun_eq_iff split_def)

lemma toy_train_losses:
  "train_losses toy 1 0 (train_loader (toy_trainer 1 2)) 0 0 = [0, 1]"
  by (simp add: toy_def toy_trainer_def numeral_2_eq_2 Let_def)

lemma toy_val_losses: "val_losses toy (val_loader (toy_trainer 1 2)) 0 = [0]"
  by (simp add: toy_def toy_trainer_def val_losses_def)

lemma run_one_epoch_constant_loss:
  assumes "run_one_epoch c self epoch iters w = Inr ((avg, score, iters'), w')"
    and "\<And>out segs. criterion c out segs = v"
  shows "avg = v"
proof -
  from assms(1) have "train_loader self \<noteq> []"
    using run_one_epoch_empty [of self c epoch iters w] by auto
  then have "real (length (train_loader self)) \<noteq> 0" by simp
  then show ?thesis
    by (simp add: run_one_epoch_losses [OF assms(1)] train_losses_constant [OF assms(2)]
        sum_list_replicate)
qed

text \<open>
  Claim C10.  With an empty training loader \<^verbatim>\<open>_run_one_epoch\<close> fails on the unbound
  loop variable (\<^verbatim>\<open>UnboundLocalError\<close>, at the trailing-step test), and with an empty
  validation loader \<^verbatim>\<open>_eval_one_epoch\<close> fails in \<^verbatim>\<open>np.concatenate\<close>
  (\<^verbatim>\<open>ValueError\<close>).  With at least one batch (and, for training, a non-zero
  \<^verbatim>\<open>accumulate_gradient\<close>) each returns, as average loss, the sum of the per-batch
  losses divided by the number of batches, the per-batch losses being the values of the
  loss function on the batches (\<open>train_losses\<close>, \<open>val_losses\<close>); these are also the
  losses the epoch logs, in order.
\<close>

theorem loaders_must_be_nonempty:
  "(train_loader self = [] \<longrightarrow> run_one_epoch c self epoch iters w = Inl UnboundLocalError)
   \<and> (val_loader self = [] \<longrightarrow> eval_one_epoch c self epoch iters best_iou w = Inl ValueError)
   \<and> (train_loader self \<noteq> [] \<and> accumulate_gradient self \<noteq> 0 \<longrightarrow>
        (\<exists>avg score iters' w'.
           run_one_epoch c self epoch iters w = Inr ((avg, score, iters'), w')
           \<and> avg = sum_list (train_losses c (accumulate_gradient self) 0 (train_loader self)
                              (params w) (grads w))
                   / real (length (train_loader self))
           \<and> logged ''loss/train_loss'' (emitted w w')
               = train_losses c (accumulate_gradient self) 0 (train_loader self)
                   (params w) (grads w)))
   \<and> (val_loader self \<noteq> [] \<longrightarrow>
        (\<exists>avg val_iou iters' best' w'.
           eval_one_epoch c self epoch iters best_iou w = Inr ((avg, val_iou, iters', best'), w')
           \<and> avg = sum_list (val_losses c (val_loader self) (params w))
                   / real (length (val_loader self))
           \<and> logged ''loss/val_loss'' (emitted w w') = val_losses c (val_loader self) (params w)))"
proof (intro conjI impI)
  assume "train_loader self = []"
  then show "run_one_epoch c self epoch iters w = Inl UnboundLocalError"
    by (rule run_one_epoch_empty)
next
  assume "val_loader self = []"
  then show "eval_one_epoch c self epoch iters best_iou w = Inl ValueError"
    by (rule eval_one_epoch_empty)
next
  assume "train_loader self \<noteq> [] \<and> accumulate_gradient self \<noteq> 0"
  then obtain avg score iters' w' where
    run: "run_one_epoch c self epoch iters w = Inr ((avg, score, iters'), w')"
    using run_one_epoch_ok by blast
  from run run_one_epoch_losses [OF run] run_one_epoch_logged_losses [OF run] show
    "\<exists>avg score iters' w'.
           run_one_epoch c self epoch iters w = Inr ((avg, score, iters'), w')
           \<and> avg = sum_list (train_losses c (accumulate_gradient self) 0 (train_loader self)
                              (params w) (grads w))
                   / real (length (train_loader self))
           \<and> logged ''loss/train_loss'' (emitted w w')
               = train_losses c (accumulate_gradient self) 0 (train_loader self)
                   (params w) (grads w)"
    by blast
next
  assume ne: "val_loader self \<noteq> []"
  show "\<exists>avg val_iou iters' best' w'.
           eval_one_epoch c self epoch iters best_iou w = Inr ((avg, val_iou, iters', best'), w')
           \<and> avg = sum_list (val_losses c (val_loader self) (params w))
                   / real (length (val_loader self))
           \<and> logged ''loss/val_loss'' (emitted w w') = val_losses c (val_loader self) (params w)"
    by (simp add: eval_one_epoch_eq [OF ne] Let_def emitted_def logged_val_events val_losses_eq)
qed

theorem loaders_must_be_nonempty_witness:
  "train_loader (toy_trainer 1 0) = []
   \<and> run_one_epoch toy (toy_trainer 1 0) 1 (- 1) toy_world = Inl UnboundLocalError
   \<and> val_loader ((toy_trainer 1 2)\<lparr>val_loader := []\<rparr>) = []
   \<and> eval_one_epoch toy ((toy_trainer 1 2)\<lparr>val_loader := []\<rparr>) 1 (- 1) 0 toy_world = Inl ValueError
   \<and> train_loader (toy_trainer 1 2) \<noteq> [] \<and> accumulate_gradient (toy_trainer 1 2) \<noteq> 0
   \<and> (\<exists>score iters' w'.
         run_one_epoch toy (toy_trainer 1 2) 1 (- 1) toy_world = Inr ((1 / 2, score, iters'), w')
         \<and> logged ''loss/train_loss'' (emitted toy_world w') = [0, 1])
   \<and> val_loader (toy_trainer 1 2) \<noteq> []
   \<and> (\<exists>val_iou iters' best' w'.
         eval_one_epoch toy (toy_trainer 1 2) 1 (- 1) 0 toy_world
           = Inr ((0, val_iou, iters', best'), w')
         \<and> logged ''loss/val_loss'' (emitted toy_world w') = [0])"
proof -
  let ?t = "toy_trainer 1 2"
  have p: "params toy_world = 0" "grads toy_world = 0" "accumulate_gradient ?t = 1"
    "length (train_loader ?t) = 2" "length (val_loader ?t) = 1"
    by (simp_all add: toy_world_def toy_trainer_def)
  have h: "train_loader (toy_trainer 1 0) = []" "val_loader (?t\<lparr>val_loader := []\<rparr>) = []"
    "train_loader ?t \<noteq> [] \<and> accumulate_gradient ?t \<noteq> 0" "val_loader ?t \<noteq> []"
    by (simp_all add: toy_trainer_def)
  from loaders_must_be_nonempty [of "toy_trainer 1 0" toy 1 "- 1" toy_world 0] h(1)
  have a: "run_one_epoch toy (toy_trainer 1 0) 1 (- 1) toy_world = Inl UnboundLocalError"
    by blast
  from loaders_must_be_nonempty [of "?t\<lparr>val_loader := []\<rparr>" toy 1 "- 1" toy_world 0] h(2)
  have b: "eval_one_epoch toy (?t\<lparr>val_loader := []\<rparr>) 1 (- 1) 0 toy_world = Inl ValueError"
    by blast
  from loaders_must_be_nonempty [of ?t toy 1 "- 1" toy_world 0] h(3) obtain avg score iters' w' where
    r: "run_one_epoch toy ?t 1 (- 1) toy_world = Inr ((avg, score, iters'), w')" and
    ra: "avg = sum_list (train_losses toy (accumulate_gradient ?t) 0 (train_loader ?t)
                  (params toy_world) (grads toy_world)) / real (length (train_loader ?t))" and
    rl: "logged ''loss/train_loss'' (emitted toy_world w')
          = train_losses toy (accumulate_gradient ?t) 0 (train_loader ?t)
              (params toy_world) (grads toy_world)"
    by blast
  from ra have "avg = 1 / 2"
    unfolding p by (simp add: toy_train_losses)
  moreover from rl have "logged ''loss/train_loss'' (emitted toy_world w') = [0, 1]"
    unfolding p by (simp add: toy_train_losses)
  ultimately have c: "\<exists>score iters' w'.
         run_one_epoch toy ?t 1 (- 1) toy_world = Inr ((1 / 2, score, iters'), w')
         \<and> logged ''loss/train_loss'' (emitted toy_world w') = [0, 1]"
    using r by blast
  from loaders_must_be_nonempty [of ?t toy 1 "- 1" toy_world 0] h(4) obtain vavg val_iou viters best' w2 where
    e: "eval_one_epoch toy ?t 1 (- 1) 0 toy_world = Inr ((vavg, val_iou, viters, best'), w2)" and
    ea: "vavg = sum_list (val_losses toy (val_loader ?t) (params toy_world))
                / real (length (val_loader ?t))" and
    el: "logged ''loss/val_loss'' (emitted toy_world w2)
          = val_losses toy (val_loader ?t) (params toy_world)"
    by blast
  from ea have "vavg = 0"
    unfolding p by (simp add: toy_val_losses)
  moreover from el have "logged ''loss/val_loss'' (emitted toy_world w2) = [0]"
    unfolding p by (simp add: toy_val_losses)
  ultimately have d: "\<exists>val_iou iters' best' w'.
         eval_one_epoch toy ?t 1 (- 1) 0 toy_world = Inr ((0, val_iou, iters', best'), w')
         \<and> logged ''loss/val_loss'' (emitted toy_world w') = [0]"
    using e by blast
  from h a b c d show ?thesis by blast
qed

text \<open>
  Claim C7.  A validation epoch over a non-empty loader completes; it leaves the
  parameters and the gradients as they were, performs no optimizer step, no gradient
  zeroing, no backward pass and no metric update (the metric accumulator is only reset);
  its mIoU is \<^verbatim>\<open>mean_iou_score\<close> of the concatenated per-batch predictions and the
  concatenated ground truths, logged once; and it returns the average loss, that mIoU,
  and the best score updated (together with the iteration counter).
\<close>

theorem validation_is_read_only:
  assumes "val_loader self \<noteq> []"
  shows "\<exists>avg_loss val_iou iters' best' w'.
     eval_one_epoch c self epoch iters best_iou w = Inr ((avg_loss, val_iou, iters', best'), w')
     \<and> params w' = params w \<and> grads w' = grads w
     \<and> OptimizerStep \<notin> set (emitted w w') \<and> ZeroGrad \<notin> set (emitted w w')
     \<and> Backward \<notin> set (emitted w w')
     \<and> MetricUpdate \<notin> set (emitted w w')
     \<and> metric_state w' = metric_reset c (metric_state w)
     \<and> val_iou = mean_iou_score c
          (concat (map (\<lambda>batch. softmax_argmax c (model_forward c False (params w) (fst batch)))
             (val_loader self)))
          (concat (map snd (val_loader self)))
     \<and> logged ''mIoU/val_miou'' (emitted w w') = [val_iou]
     \<and> avg_loss = sum_list (map (\<lambda>batch. criterion c (model_forward c False (params w) (fst batch))
                                   (snd batch)) (val_loader self))
                  / real (length (val_loader self))
     \<and> best' = (if best_iou < val_iou then val_iou else best_iou)"
proof -
  let ?V = "val_events c False (params w) iters (val_loader self)"
  have k: "\<And>e. e \<in> set ?V \<Longrightarrow> e \<noteq> OptimizerStep \<and> e \<noteq> ZeroGrad \<and> e \<noteq> Backward \<and> e \<noteq> MetricUpdate"
    using val_events_kinds by fastforce
  have l: "logged ''mIoU/val_miou'' ?V = []"
    by (rule logged_quiet) (rule quiet_val_events)
  have b: "batch_labels_of c False (params w)
           = (\<lambda>batch. softmax_argmax c (model_forward c False (params w) (fst batch)))"
    "batch_loss_of c False (params w)
           = (\<lambda>batch. criterion c (model_forward c False (params w) (fst batch)) (snd batch))"
    by (simp_all add: fun_eq_iff batch_labels_of_def batch_loss_of_def)
  show ?thesis
    using k l by (auto simp: eval_one_epoch_eq [OF assms] Let_def emitted_def b)
qed

theorem validation_is_read_only_witness:
  "val_loader (toy_trainer 1 2) \<noteq> []
   \<and> (\<exists>avg_loss val_iou iters' best' w'.
     eval_one_epoch toy (toy_trainer 1 2) 1 (- 1) 0 (toy_world\<lparr>params := 4\<rparr>)
       = Inr ((avg_loss, val_iou, iters', best'), w')
     \<and> params w' = 4 \<and> grads w' = 0
     \<and> OptimizerStep \<notin> set (emitted (toy_world\<lparr>params := 4\<rparr>) w')
     \<and> ZeroGrad \<notin> set (emitted (toy_world\<lparr>params := 4\<rparr>) w')
     \<and> val_iou = 0.25 \<and> avg_loss = 4 \<and> best' = 0.25)"
  using validation_is_read_only [of "toy_trainer 1 2" toy 1 "- 1" 0 "toy_world\<lparr>params := 4\<rparr>"]
  by (auto simp: toy_trainer_def toy_def toy_world_def)

section \<open>The argument parser's defaults\<close>

text \<open>
  Claim C9.  On an empty command line \<^verbatim>\<open>arg_parse\<close> returns the namespace of the
  defaults: \<^verbatim>\<open>data_dir\<close> "hw2_data", \<^verbatim>\<open>workers\<close> 4, \<^verbatim>\<open>save_dir\<close> "models",
  \<^verbatim>\<open>pretrained\<close> false, \<^verbatim>\<open>gpu\<close> 0, \<^verbatim>\<open>epoch\<close> 100, \<^verbatim>\<open>val_epoch\<close> 1,
  \<^verbatim>\<open>train_batch\<close> 32, \<^verbatim>\<open>test_batch\<close> 32, \<^verbatim>\<open>lr\<close> 0.0002, \<^verbatim>\<open>weight_decay\<close> 0.0005,
  \<^verbatim>\<open>resume\<close> "", \<^verbatim>\<open>random_seed\<close> 42, and nothing else.
\<close>

theorem arg_parse_defaults:
  "arg_parse cv [] =
     Namespace
       [(''data_dir'', VStr ''hw2_data''), (''workers'', VInt 4), (''save_dir'', VStr ''models''),
        (''pretrained'', VBool False), (''gpu'', VInt 0), (''epoch'', VInt 100),
        (''val_epoch'', VInt 1), (''train_batch'', VInt 32), (''test_batch'', VInt 32),
        (''lr'', VFloat 0.0002), (''weight_decay'', VFloat 0.0005), (''resume'', VStr ''''),
        (''random_seed'', VInt 42)]"
  by (simp add: arg_parse_def parser_arguments_def add_argument_def dest_of_def)

lemma arg_parse_val_epoch:
  assumes "int_of_str cv s = Some v" and "s = [] \<or> hd s \<noteq> CHR ''-''"
  shows "\<exists>ns. arg_parse cv [''--val_epoch'', s] = Namespace ns
     \<and> map_of ns ''val_epoch'' = Some (VInt v)"
  using assms
  by (auto simp: arg_parse_def parser_arguments_def add_argument_def dest_of_def)

section \<open>The epoch loop\<close>

lemma digit_char_not_b: "digit_char d \<noteq> CHR ''b''"
  by (simp add: digit_char_def)

lemma str_nat_hd: "str_nat n \<noteq> [] \<and> hd (str_nat n) \<noteq> CHR ''b''"
proof (induction n rule: str_nat.induct)
  case (1 n)
  show ?case
  proof (cases "n < 10")
    case True
    then show ?thesis by (simp add: str_nat.simps [of n] digit_char_not_b)
  next
    case False
    with 1 show ?thesis by (simp add: str_nat.simps [of n])
  qed
qed

lemma str_int_hd: "str_int i \<noteq> [] \<and> hd (str_int i) \<noteq> CHR ''b''"
  by (simp add: str_int_def str_nat_hd)

lemma epoch_name_neq: "''model_'' @ str_int e @ ''.pth.tar'' \<noteq> ''model_best.pth.tar''"
proof
  assume "''model_'' @ str_int e @ ''.pth.tar'' = ''model_best.pth.tar''"
  then have "str_int e @ ''.pth.tar'' = ''best.pth.tar''" by simp
  then have "hd (str_int e @ ''.pth.tar'') = CHR ''b''" by simp
  with str_int_hd [of e] show False by simp
qed

lemma os_path_join_plain:
  assumes "b \<noteq> []" and "hd b \<noteq> CHR ''/''"
  shows "os_path_join a b = (if a = [] \<or> last a = CHR ''/'' then a @ b else a @ ''/'' @ b)"
  using assms by (simp add: os_path_join_def)

lemma os_path_join_inj:
  assumes "b \<noteq> []" "hd b \<noteq> CHR ''/''" "b' \<noteq> []" "hd b' \<noteq> CHR ''/''"
    and "os_path_join a b = os_path_join a b'"
  shows "b = b'"
proof (cases "a = [] \<or> last a = CHR ''/''")
  case True
  with assms(5) show ?thesis
    by (simp only: os_path_join_plain [OF assms(1,2)] os_path_join_plain [OF assms(3,4)]
        if_True same_append_eq)
next
  case False
  with assms(5) show ?thesis
    by (simp only: os_path_join_plain [OF assms(1,2)] os_path_join_plain [OF assms(3,4)]
        if_False same_append_eq)
qed

lemma epoch_path_neq_best: "epoch_path self e \<noteq> best_path self"
proof
  assume eq: "epoch_path self e = best_path self"
  have "''model_'' @ str_int e @ ''.pth.tar'' = ''model_best.pth.tar''"
  proof (rule os_path_join_inj)
    show "os_path_join (save_dir self) (''model_'' @ str_int e @ ''.pth.tar'')
          = os_path_join (save_dir self) ''model_best.pth.tar''"
      using eq by (simp only: epoch_path_def best_path_def)
  qed simp_all
  with epoch_name_neq show False by blast
qed

lemma run_one_epoch_prefix:
  assumes "run_one_epoch c self epoch iters w = Inr ((avg, score, iters'), w')"
  shows "trace w' = trace w @ emitted w w'"
proof -
  let ?w0 = "metric_reset_w c (model_train w)"
  from assms obtain idx batch_loss w1 where
    lp: "train_loop c (accumulate_gradient self) 0 (train_loader self) (None, iters, 0, ?w0)
          = Inr (Some idx, iters', batch_loss, w1)" and
    w': "w' = add_scalar ''mIoU/train_miou'' score epoch
            (if int idx mod 4 = 0 then optimizer_zero_grad c (optimizer_step c w1) else w1)"
    by (rule run_one_epoch_cases)
  have "trace w1 = trace w @ [ModelTrain, MetricReset] @ emitted ?w0 w1"
    using train_loop_prefix [OF lp] by (simp add: world_ops)
  then have "\<exists>evs. trace w' = trace w @ evs"
    by (simp add: w' world_ops)
  then show ?thesis by (auto simp: emitted_def)
qed

lemma run_one_epoch_quiet:
  assumes "run_one_epoch c self epoch iters w = Inr ((avg, score, iters'), w')"
  shows "\<exists>R. emitted w w' = ModelTrain # R \<and> list_all quiet R"
proof -
  from run_one_epoch_shape [OF assms] obtain L x where
    e: "emitted w w' =
        [ModelTrain, MetricReset] @ L @ [SetPostfix x]
        @ (if (int (length (train_loader self)) - 1) mod 4 = 0 then [OptimizerStep, ZeroGrad] else [])
        @ [AddScalar ''mIoU/train_miou'' score epoch]" and
    q: "list_all quiet L"
    by blast
  let ?R = "MetricReset # L @ [SetPostfix x]
        @ (if (int (length (train_loader self)) - 1) mod 4 = 0 then [OptimizerStep, ZeroGrad] else [])
        @ [AddScalar ''mIoU/train_miou'' score epoch]"
  have "emitted w w' = ModelTrain # ?R" by (simp add: e)
  moreover have "list_all quiet ?R" using q by simp
  ultimately show ?thesis by blast
qed

lemma fit_epoch_cases:
  assumes "fit_epoch c self epoch (iters, val_iters, best, w) = Inr (iters', val_iters', best', w')"
  obtains train_loss train_iou w1 val_loss val_iou w2 where
    "run_one_epoch c self epoch iters w = Inr ((train_loss, train_iou, iters'), w1)"
    "eval_one_epoch c self epoch val_iters best w1 = Inr ((val_loss, val_iou, val_iters', best'), w2)"
    "w' = save (epoch_path self epoch)
            (emit (Print '''')
              (emit (PrintFmt ''Valid Mean IOU:'' val_iou)
                (emit (PrintFmt ''Valid loss:'' val_loss)
                  (emit (PrintFmt ''Train Mean IOU:'' train_iou)
                    (emit (PrintFmt ''Train loss:'' train_loss) w2)))))"
  using assms
  by (auto simp: fit_epoch_def Let_def split: sum.splits prod.splits)

lemma eval_one_epoch_nonempty:
  assumes "eval_one_epoch c self epoch iters best w = Inr r"
  shows "val_loader self \<noteq> []"
  using assms eval_one_epoch_empty [of self c epoch iters best w] by auto

lemma fit_epoch_shape:
  assumes "fit_epoch c self epoch (iters, val_iters, best, w) = Inr (iters', val_iters', best', w')"
  shows "\<exists>R V v sd trl tri vll.
      trace w' = trace w
        @ epoch_events (best_path self) (epoch_path self epoch) epoch R V v (best < v) sd trl tri vll
      \<and> list_all quiet R \<and> list_all quiet V
      \<and> best' = (if best < v then v else best)"
proof -
  from assms obtain train_loss train_iou w1 val_loss val_iou w2 where
    run: "run_one_epoch c self epoch iters w = Inr ((train_loss, train_iou, iters'), w1)" and
    ev: "eval_one_epoch c self epoch val_iters best w1
          = Inr ((val_loss, val_iou, val_iters', best'), w2)" and
    w': "w' = save (epoch_path self epoch)
            (emit (Print '''')
              (emit (PrintFmt ''Valid Mean IOU:'' val_iou)
                (emit (PrintFmt ''Valid loss:'' val_loss)
                  (emit (PrintFmt ''Train Mean IOU:'' train_iou)
                    (emit (PrintFmt ''Train loss:'' train_loss) w2)))))"
    by (rule fit_epoch_cases)
  from run_one_epoch_quiet [OF run] obtain R where
    R: "emitted w w1 = ModelTrain # R" and qR: "list_all quiet R"
    by blast
  have t1: "trace w1 = trace w @ ModelTrain # R"
    using run_one_epoch_prefix [OF run] R by simp
  let ?V = "MetricReset # val_events c False (params w1) val_iters (val_loader self)"
  have qV: "list_all quiet ?V"
    by (simp add: quiet_val_events)
  from eval_one_epoch_nonempty [OF ev] have ne: "val_loader self \<noteq> []" .
  from ev have
    b': "best' = (if best < val_iou then val_iou else best)" and
    p2: "params w2 = params w1" and
    t2: "trace w2 = trace w1 @ ModelEval # ?V @ AddScalar ''mIoU/val_miou'' val_iou epoch
          # (if best < val_iou
             then [Print ''Best model saved!'', TorchSave (params w1) (best_path self)] else [])"
    unfolding eval_one_epoch_eq [OF ne] Let_def by auto
  have "trace w' = trace w
        @ epoch_events (best_path self) (epoch_path self epoch) epoch R ?V val_iou (best < val_iou)
            (params w1) train_loss train_iou val_loss"
    by (simp add: w' save_def t2 t1 p2 epoch_events_def)
  with qR qV b' show ?thesis by blast
qed

lemma fit_loop_ConsE:
  assumes "fit_loop c self (epoch # rest) (iters, val_iters, best, w) = Inr r"
  obtains iters1 val_iters1 best1 w1 where
    "fit_epoch c self epoch (iters, val_iters, best, w) = Inr (iters1, val_iters1, best1, w1)"
    "fit_loop c self rest (iters1, val_iters1, best1, w1) = Inr r"
  using assms by (auto split: sum.splits)

lemma fit_loop_shape:
  "fit_loop c self epochs (iters, val_iters, best, w) = Inr (iters', val_iters', best', w')
   \<Longrightarrow> \<exists>evs. trace w' = trace w @ evs
         \<and> fit_shape (best_path self) (epoch_path self) best epochs evs"
proof (induction epochs arbitrary: iters val_iters best w)
  case Nil
  then show ?case by (simp add: fit_shape_Nil)
next
  case (Cons epoch rest)
  from Cons.prems obtain iters1 val_iters1 best1 w1 where
    ep: "fit_epoch c self epoch (iters, val_iters, best, w) = Inr (iters1, val_iters1, best1, w1)" and
    lp: "fit_loop c self rest (iters1, val_iters1, best1, w1) = Inr (iters', val_iters', best', w')"
    by (rule fit_loop_ConsE)
  from fit_epoch_shape [OF ep] obtain R V v sd trl tri vll where
    t1: "trace w1 = trace w
        @ epoch_events (best_path self) (epoch_path self epoch) epoch R V v (best < v) sd trl tri vll"
    and q: "list_all quiet R" "list_all quiet V"
    and b1: "best1 = (if best < v then v else best)"
    by blast
  from Cons.IH [OF lp] obtain evs where
    t2: "trace w' = trace w1 @ evs" and
    sh: "fit_shape (best_path self) (epoch_path self) best1 rest evs"
    by blast
  from q sh have "fit_shape (best_path self) (epoch_path self) best (epoch # rest)
     (epoch_events (best_path self) (epoch_path self epoch) epoch R V v (best < v) sd trl tri vll @ evs)"
    unfolding b1 by (rule fit_shape_Cons)
  moreover have "trace w' = trace w
     @ (epoch_events (best_path self) (epoch_path self epoch) epoch R V v (best < v) sd trl tri vll @ evs)"
    by (simp add: t1 t2)
  ultimately show ?case by blast
qed

lemma fit_shape_emitted:
  assumes "fit c self epochs w = Inr (u, w')"
  shows "\<exists>evs. emitted w w' = Print ''===> start training ...'' # evs
     \<and> fit_shape (best_path self) (epoch_path self) 0 [1..epochs] evs"
proof -
  let ?w0 = "emit (Print ''===> start training ...'') w"
  from assms obtain iters' val_iters' best' where
    "fit_loop c self [1..epochs] (- 1, - 1, 0, ?w0) = Inr (iters', val_iters', best', w')"
    by (auto simp: fit_def Let_def split: sum.splits prod.splits)
  from fit_loop_shape [OF this] obtain evs where
    "trace w' = trace ?w0 @ evs" and
    sh: "fit_shape (best_path self) (epoch_path self) 0 [1..epochs] evs"
    by blast
  then have "trace w' = trace w @ Print ''===> start training ...'' # evs"
    by simp
  then have "emitted w w' = Print ''===> start training ...'' # evs"
    by (rule emitted_append)
  with sh show ?thesis by blast
qed

lemma fit_epoch_ok:
  assumes "train_loader self \<noteq> []" "accumulate_gradient self \<noteq> 0" "val_loader self \<noteq> []"
  shows "\<exists>r. fit_epoch c self epoch (iters, val_iters, best, w) = Inr r"
proof -
  from run_one_epoch_ok [OF assms(1,2)] obtain avg score iters' w1 where
    "run_one_epoch c self epoch iters w = Inr ((avg, score, iters'), w1)"
    by blast
  then show ?thesis
    by (simp add: fit_epoch_def eval_one_epoch_eq [OF assms(3)] Let_def)
qed

lemma fit_loop_ok:
  assumes "train_loader self \<noteq> []" "accumulate_gradient self \<noteq> 0" "val_loader self \<noteq> []"
  shows "\<exists>r. fit_loop c self epochs (iters, val_iters, best, w) = Inr r"
proof (induction epochs arbitrary: iters val_iters best w)
  case Nil
  show ?case by simp
next
  case (Cons epoch rest)
  from fit_epoch_ok [OF assms] obtain iters1 val_iters1 best1 w1 where
    "fit_epoch c self epoch (iters, val_iters, best, w) = Inr (iters1, val_iters1, best1, w1)"
    by (metis prod_cases4)
  with Cons.IH [of iters1 val_iters1 best1 w1] show ?case by simp
qed

lemma fit_ok:
  assumes "train_loader self \<noteq> []" "accumulate_gradient self \<noteq> 0" "val_loader self \<noteq> []"
  shows "\<exists>w'. fit c self epochs w = Inr ((), w')"
proof -
  from fit_loop_ok [OF assms] obtain iters' val_iters' best' w' where
    "fit_loop c self [1..epochs] (- 1, - 1, 0, emit (Print ''===> start training ...'') w)
       = Inr (iters', val_iters', best', w')"
    by (metis prod_cases4)
  then show ?thesis by (simp add: fit_def Let_def)
qed

lemma logged_at_append [simp]:
  "logged_at key (xs @ ys) = logged_at key xs @ logged_at key ys"
  by (induction key xs rule: logged_at.induct) simp_all

lemma logged_map_snd: "logged key evs = map snd (logged_at key evs)"
  by (induction key evs rule: logged_at.induct) simp_all

lemma quiet_imp:
  assumes "quiet x"
  shows "\<not> logs_val_miou x" "\<not> writes_path p x" "phase_of p x = []"
    "x \<noteq> ModelTrain" "x \<noteq> ModelEval"
  using assms by (cases x; simp)+

lemma logged_at_quiet: "list_all quiet R \<Longrightarrow> logged_at ''mIoU/val_miou'' R = []"
  by (induction "''mIoU/val_miou''" R rule: logged_at.induct) simp_all

lemma takeWhile_quiet:
  "list_all quiet R \<Longrightarrow>
   takeWhile (\<lambda>x. \<not> logs_val_miou x) (R @ ys) = R @ takeWhile (\<lambda>x. \<not> logs_val_miou x) ys"
  by (induction R) (simp_all add: quiet_imp)

lemma best_saved_quiet: "list_all quiet R \<Longrightarrow> best_saved p (R @ ys) = best_saved p ys"
  by (induction R) (simp_all add: quiet_imp)

lemma list_ex_quiet: "list_all quiet R \<Longrightarrow> \<not> list_ex (writes_path p) R"
  by (induction R) (simp_all add: quiet_imp)

lemma phases_append: "phases p (xs @ ys) = phases p xs @ phases p ys"
  by (simp add: phases_def)

lemma phases_quiet: "list_all quiet R \<Longrightarrow> phases p R = []"
  by (induction R) (simp_all add: phases_def quiet_imp)

lemma marks_quiet:
  "list_all quiet R \<Longrightarrow> filter (\<lambda>e. e = ModelTrain \<or> e = ModelEval) R = []"
  by (induction R) (auto simp: quiet_imp)

lemma epoch_events_logged_at:
  assumes "list_all quiet R" "list_all quiet V"
  shows "logged_at ''mIoU/val_miou'' (epoch_events bp ep e R V v imp sd trl tri vll) = [(e, v)]"
  using assms by (simp add: epoch_events_def logged_at_quiet)

lemma concat_phase_quiet: "list_all quiet R \<Longrightarrow> concat (map (phase_of p) R) = []"
  using phases_quiet [of R p] by (simp add: phases_def)

lemma epoch_events_phases:
  assumes "list_all quiet R" "list_all quiet V" "ep \<noteq> bp"
  shows "phases bp (epoch_events bp ep e R V v imp sd trl tri vll) = epoch_phases ep"
  using assms
  by (cases imp) (simp_all add: epoch_events_def phases_def epoch_phases_def concat_phase_quiet)

lemma epoch_events_marks:
  assumes "list_all quiet R" "list_all quiet V"
  shows "filter (\<lambda>x. x = ModelTrain \<or> x = ModelEval) (epoch_events bp ep e R V v imp sd trl tri vll)
         = [ModelTrain, ModelEval]"
  using assms by (simp add: epoch_events_def marks_quiet)

lemma epoch_events_takeWhile:
  assumes "list_all quiet R" "list_all quiet V"
  shows "takeWhile (\<lambda>x. \<not> logs_val_miou x) (epoch_events bp ep e R V v imp sd trl tri vll @ rest)
         = ModelTrain # R @ ModelEval # V"
  using assms by (simp add: epoch_events_def takeWhile_quiet)

lemma epoch_events_best_saved:
  assumes "list_all quiet R" "list_all quiet V" "ep \<noteq> bp"
  shows "best_saved bp (epoch_events bp ep e R V v imp sd trl tri vll @ rest)
         = (imp \<or> list_ex (writes_path bp) (takeWhile (\<lambda>x. \<not> logs_val_miou x) rest))
           # best_saved bp rest"
  using assms by (simp add: epoch_events_def best_saved_quiet)

lemma fit_shape_logged_at:
  "fit_shape bp ep best es evs \<Longrightarrow> map fst (logged_at ''mIoU/val_miou'' evs) = es"
  by (induction rule: fit_shape.induct) (simp_all add: epoch_events_logged_at)

lemma fit_shape_phases:
  assumes "fit_shape bp ep best es evs" and "\<And>e. ep e \<noteq> bp"
  shows "phases bp evs = concat (map (\<lambda>e. epoch_phases (ep e)) es)"
  using assms
  by (induction rule: fit_shape.induct)
     (simp_all add: phases_append epoch_events_phases, simp add: phases_def)

lemma fit_shape_marks:
  "fit_shape bp ep best es evs \<Longrightarrow>
   filter (\<lambda>x. x = ModelTrain \<or> x = ModelEval) evs
   = concat (replicate (length es) [ModelTrain, ModelEval])"
  by (induction rule: fit_shape.induct) (simp_all add: epoch_events_marks)

lemma fit_shape_best_saved:
  assumes "fit_shape bp ep best es evs" and "\<And>e. ep e \<noteq> bp"
  shows "best_saved bp evs = improvements best (logged ''mIoU/val_miou'' evs)
     \<and> \<not> list_ex (writes_path bp) (takeWhile (\<lambda>x. \<not> logs_val_miou x) evs)"
  using assms
proof (induction rule: fit_shape.induct)
  case (fit_shape_Nil best)
  show ?case by simp
next
  case (fit_shape_Cons R V best v es rest e sd trl tri vll)
  from fit_shape_Cons.IH fit_shape_Cons.prems have
    ih: "best_saved bp rest = improvements (if best < v then v else best) (logged ''mIoU/val_miou'' rest)"
    and nw: "\<not> list_ex (writes_path bp) (takeWhile (\<lambda>x. \<not> logs_val_miou x) rest)"
    by simp_all
  have l: "logged ''mIoU/val_miou''
            (epoch_events bp (ep e) e R V v (best < v) sd trl tri vll @ rest)
           = v # logged ''mIoU/val_miou'' rest"
    using fit_shape_Cons.hyps(1,2) by (simp add: logged_map_snd epoch_events_logged_at)
  have b: "best_saved bp (epoch_events bp (ep e) e R V v (best < v) sd trl tri vll @ rest)
           = (best < v) # best_saved bp rest"
    using fit_shape_Cons.hyps(1,2) fit_shape_Cons.prems nw
    by (simp add: epoch_events_best_saved)
  have t: "\<not> list_ex (writes_path bp) (takeWhile (\<lambda>x. \<not> logs_val_miou x)
             (epoch_events bp (ep e) e R V v (best < v) sd trl tri vll @ rest))"
    using fit_shape_Cons.hyps(1,2)
    by (simp add: epoch_events_takeWhile list_ex_quiet)
  from l b t ih show ?case by simp
qed

section \<open>What the epoch loop does\<close>

lemma length_upto_nat: "length [1..n] = nat n"
  by (simp add: length_upto)

lemma fit_observed:
  assumes "fit c self epochs w = Inr (u, w')"
  shows "map fst (logged_at ''mIoU/val_miou'' (emitted w w')) = [1..epochs]"
    and "best_saved (best_path self) (emitted w w')
         = improvements 0 (logged ''mIoU/val_miou'' (emitted w w'))"
    and "phases (best_path self) (emitted w w')
         = concat (map (\<lambda>epoch. epoch_phases (epoch_path self epoch)) [1..epochs])"
    and "filter (\<lambda>e. e = ModelTrain \<or> e = ModelEval) (emitted w w')
         = concat (replicate (nat epochs) [ModelTrain, ModelEval])"
proof -
  from fit_shape_emitted [OF assms] obtain evs where
    e: "emitted w w' = Print ''===> start training ...'' # evs" and
    sh: "fit_shape (best_path self) (epoch_path self) 0 [1..epochs] evs"
    by blast
  have ne: "\<And>epoch. epoch_path self epoch \<noteq> best_path self"
    by (rule epoch_path_neq_best)
  show "map fst (logged_at ''mIoU/val_miou'' (emitted w w')) = [1..epochs]"
    using fit_shape_logged_at [OF sh] by (simp add: e)
  show "best_saved (best_path self) (emitted w w')
         = improvements 0 (logged ''mIoU/val_miou'' (emitted w w'))"
    using fit_shape_best_saved [OF sh ne] by (simp add: e)
  show "phases (best_path self) (emitted w w')
         = concat (map (\<lambda>epoch. epoch_phases (epoch_path self epoch)) [1..epochs])"
    using fit_shape_phases [OF sh ne] by (simp add: e phases_def)
  show "filter (\<lambda>e. e = ModelTrain \<or> e = ModelEval) (emitted w w')
         = concat (replicate (nat epochs) [ModelTrain, ModelEval])"
    using fit_shape_marks [OF sh] by (simp add: e length_upto_nat)
qed

lemmas toy_eval = fit_def fit_epoch_def run_one_epoch_def eval_one_epoch_def train_step_def
  eval_step_def py_mod_def np_concatenate_def Let_def world_ops emit_def emitted_def
  toy_def toy_trainer_def toy_world_def upto_rec1

lemma toy_fit_3:
  assumes "fit toy (toy_trainer 1 1) 3 toy_world = Inr ((), w')"
  shows "logged_at ''mIoU/val_miou'' (emitted toy_world w') = [(1, 0.10), (2, 0.25), (3, 0.20)]"
  using assms by (simp add: toy_eval) auto

lemma toy_epoch_paths:
  "epoch_path (toy_trainer k n) 1 = ''models/model_1.pth.tar''"
  "epoch_path (toy_trainer k n) 2 = ''models/model_2.pth.tar''"
  by (simp_all add: epoch_path_def os_path_join_def toy_trainer_def str_int_def
      str_nat.simps digit_char_def)

text \<open>
  Claim C1.  With non-empty loaders and a non-zero \<^verbatim>\<open>accumulate_gradient\<close>:
  a validation epoch entered with best score \<open>best\<close> completes, writes the best-model
  checkpoint exactly when its mIoU \<open>v\<close> strictly exceeds \<open>best\<close>, and returns \<open>v\<close> as
  the best score in that case and \<open>best\<close> otherwise; and \<^verbatim>\<open>fit\<close> completes, logs one
  validation mIoU per epoch 1, ..., \<^verbatim>\<open>epochs\<close>, and writes the best-model checkpoint
  after exactly those that strictly exceed the best score so far, which starts at 0.
\<close>

theorem best_checkpoint_iff_improvement:
  assumes "train_loader self \<noteq> []" and "accumulate_gradient self \<noteq> 0"
    and "val_loader self \<noteq> []"
  shows "(\<exists>avg v iters' best' w'.
            eval_one_epoch c self epoch iters best w = Inr ((avg, v, iters', best'), w')
            \<and> list_ex (writes_path (best_path self)) (emitted w w') = (best < v)
            \<and> best' = (if best < v then v else best))
       \<and> (\<exists>w1. fit c self epochs w0 = Inr ((), w1)
            \<and> map fst (logged_at ''mIoU/val_miou'' (emitted w0 w1)) = [1..epochs]
            \<and> best_saved (best_path self) (emitted w0 w1)
                = improvements 0 (logged ''mIoU/val_miou'' (emitted w0 w1)))"
proof
  have "\<not> list_ex (writes_path (best_path self))
          (val_events c False (params w) iters (val_loader self))"
    by (rule list_ex_quiet) (rule quiet_val_events)
  then show "\<exists>avg v iters' best' w'.
            eval_one_epoch c self epoch iters best w = Inr ((avg, v, iters', best'), w')
            \<and> list_ex (writes_path (best_path self)) (emitted w w') = (best < v)
            \<and> best' = (if best < v then v else best)"
    by (simp add: eval_one_epoch_eq [OF assms(3)] Let_def emitted_def)
next
  from fit_ok [OF assms] obtain w1 where f: "fit c self epochs w0 = Inr ((), w1)"
    by blast
  from f fit_observed(1,2) [OF f] show "\<exists>w1. fit c self epochs w0 = Inr ((), w1)
            \<and> map fst (logged_at ''mIoU/val_miou'' (emitted w0 w1)) = [1..epochs]
            \<and> best_saved (best_path self) (emitted w0 w1)
                = improvements 0 (logged ''mIoU/val_miou'' (emitted w0 w1))"
    by blast
qed

theorem best_checkpoint_iff_improvement_witness:
  "train_loader (toy_trainer 1 1) \<noteq> [] \<and> accumulate_gradient (toy_trainer 1 1) \<noteq> 0
   \<and> val_loader (toy_trainer 1 1) \<noteq> []
   \<and> (\<exists>avg iters' w'.
         eval_one_epoch toy (toy_trainer 1 1) 1 (- 1) 0 toy_world
           = Inr ((avg, 0.20, iters', 0.20), w')
         \<and> list_ex (writes_path (best_path (toy_trainer 1 1))) (emitted toy_world w'))
   \<and> (\<exists>w1. fit toy (toy_trainer 1 1) 3 toy_world = Inr ((), w1)
         \<and> logged ''mIoU/val_miou'' (emitted toy_world w1) = [0.10, 0.25, 0.20]
         \<and> best_saved (best_path (toy_trainer 1 1)) (emitted toy_world w1)
             = [True, True, False])"
proof -
  have h: "train_loader (toy_trainer 1 1) \<noteq> []" "accumulate_gradient (toy_trainer 1 1) \<noteq> 0"
    "val_loader (toy_trainer 1 1) \<noteq> []"
    by (simp_all add: toy_trainer_def)
  from best_checkpoint_iff_improvement [OF h, of toy 1 "- 1" 0 toy_world 3 toy_world]
  obtain avg v iters' best' w' w1 where
    e: "eval_one_epoch toy (toy_trainer 1 1) 1 (- 1) 0 toy_world = Inr ((avg, v, iters', best'), w')"
    and s: "list_ex (writes_path (best_path (toy_trainer 1 1))) (emitted toy_world w') = (0 < v)"
    and b: "best' = (if 0 < v then v else 0)"
    and f: "fit toy (toy_trainer 1 1) 3 toy_world = Inr ((), w1)"
    and i: "best_saved (best_path (toy_trainer 1 1)) (emitted toy_world w1)
             = improvements 0 (logged ''mIoU/val_miou'' (emitted toy_world w1))"
    by blast
  from e have v: "v = 0.20"
    by (simp add: toy_eval)
  have l: "logged ''mIoU/val_miou'' (emitted toy_world w1) = [0.10, 0.25, 0.20]"
    by (simp add: logged_map_snd toy_fit_3 [OF f])
  from e s b v have "eval_one_epoch toy (toy_trainer 1 1) 1 (- 1) 0 toy_world
           = Inr ((avg, 0.20, iters', 0.20), w')
         \<and> list_ex (writes_path (best_path (toy_trainer 1 1))) (emitted toy_world w')"
    by simp
  moreover from f l i have "fit toy (toy_trainer 1 1) 3 toy_world = Inr ((), w1)
         \<and> logged ''mIoU/val_miou'' (emitted toy_world w1) = [0.10, 0.25, 0.20]
         \<and> best_saved (best_path (toy_trainer 1 1)) (emitted toy_world w1)
             = [True, True, False]"
    by simp
  ultimately show ?thesis using h by blast
qed

text \<open>
  Claim C5.  If \<^verbatim>\<open>fit(3)\<close> completes and the validation mIoU it logs for the epochs
  1, 2, 3 are 0.10, 0.25, 0.20, the best-model checkpoint is written after the first
  and the second of them and not after the third.
\<close>

theorem three_epoch_scenario:
  assumes "fit c self 3 w = Inr (u, w')"
    and "logged_at ''mIoU/val_miou'' (emitted w w') = [(1, 0.10), (2, 0.25), (3, 0.20)]"
  shows "best_saved (best_path self) (emitted w w') = [True, True, False]"
proof -
  have "logged ''mIoU/val_miou'' (emitted w w') = [0.10, 0.25, 0.20]"
    by (simp add: logged_map_snd assms(2))
  with fit_observed(2) [OF assms(1)] show ?thesis by simp
qed

theorem three_epoch_scenario_witness:
  "\<exists>w'. fit toy (toy_trainer 1 1) 3 toy_world = Inr ((), w')
     \<and> logged_at ''mIoU/val_miou'' (emitted toy_world w') = [(1, 0.10), (2, 0.25), (3, 0.20)]
     \<and> best_saved (best_path (toy_trainer 1 1)) (emitted toy_world w') = [True, True, False]"
proof -
  from fit_ok [of "toy_trainer 1 1" toy 3 toy_world] obtain w' where
    f: "fit toy (toy_trainer 1 1) 3 toy_world = Inr ((), w')"
    by (auto simp: toy_trainer_def)
  from f toy_fit_3 [OF f] three_epoch_scenario [OF f toy_fit_3 [OF f]] show ?thesis
    by blast
qed

text \<open>
  Claim C6.  With non-empty loaders and a non-zero \<^verbatim>\<open>accumulate_gradient\<close>,
  \<^verbatim>\<open>fit(epochs)\<close> completes and returns \<^verbatim>\<open>None\<close>; its log consists, for each epoch
  of 1, ..., \<^verbatim>\<open>epochs\<close> in turn, of one training epoch, one validation epoch, the five
  lines of the summary and the write of the checkpoint of that epoch, at
  \<^verbatim>\<open>os.path.join(save_dir, "model_<epoch>.pth.tar")\<close>; the number of epochs run is
  \<^verbatim>\<open>epochs\<close> (none when it is negative).
\<close>

theorem fit_runs_every_epoch:
  assumes "train_loader self \<noteq> []" and "accumulate_gradient self \<noteq> 0"
    and "val_loader self \<noteq> []"
  shows "\<exists>w'. fit c self epochs w = Inr ((), w')
     \<and> phases (best_path self) (emitted w w')
         = concat (map (\<lambda>epoch. epoch_phases (epoch_path self epoch)) [1..epochs])
     \<and> length [1..epochs] = nat epochs"
proof -
  from fit_ok [OF assms] obtain w' where f: "fit c self epochs w = Inr ((), w')"
    by blast
  from f fit_observed(3) [OF f] length_upto_nat show ?thesis by blast
qed

theorem fit_runs_every_epoch_witness:
  "train_loader (toy_trainer 1 1) \<noteq> [] \<and> accumulate_gradient (toy_trainer 1 1) \<noteq> 0
   \<and> val_loader (toy_trainer 1 1) \<noteq> []
   \<and> (\<exists>w'. fit toy (toy_trainer 1 1) 2 toy_world = Inr ((), w')
         \<and> phases (best_path (toy_trainer 1 1)) (emitted toy_world w')
             = epoch_phases ''models/model_1.pth.tar'' @ epoch_phases ''models/model_2.pth.tar'')"
proof -
  have "[1..2] = [1, 2::int]"
    by (simp add: upto_rec1)
  with fit_runs_every_epoch [of "toy_trainer 1 1" toy 2 toy_world] show ?thesis
    by (simp add: toy_epoch_paths) (simp add: toy_trainer_def)
qed

text \<open>
  Claim C8.  The parser accepts \<^verbatim>\<open>--val_epoch\<close> with any integer value and stores it
  under \<^verbatim>\<open>val_epoch\<close>; whatever that value is, \<^verbatim>\<open>fit\<close> (whose trainer has no such
  field) completes and alternates training and validation epochs, one validation epoch
  after every training epoch.
\<close>

theorem val_epoch_is_ignored:
  assumes "int_of_str cv s = Some val_epoch" and "s = [] \<or> hd s \<noteq> CHR ''-''"
    and "train_loader self \<noteq> []" and "accumulate_gradient self \<noteq> 0"
    and "val_loader self \<noteq> []"
  shows "(\<exists>ns. arg_parse cv [''--val_epoch'', s] = Namespace ns
            \<and> map_of ns ''val_epoch'' = Some (VInt val_epoch))
       \<and> (\<exists>w'. fit c self epochs w = Inr ((), w')
            \<and> filter (\<lambda>e. e = ModelTrain \<or> e = ModelEval) (emitted w w')
                = concat (replicate (nat epochs) [ModelTrain, ModelEval]))"
proof
  show "\<exists>ns. arg_parse cv [''--val_epoch'', s] = Namespace ns
            \<and> map_of ns ''val_epoch'' = Some (VInt val_epoch)"
    using assms(1,2) by (rule arg_parse_val_epoch)
next
  from fit_ok [OF assms(3-5)] obtain w' where f: "fit c self epochs w = Inr ((), w')"
    by blast
  from f fit_observed(4) [OF f] show "\<exists>w'. fit c self epochs w = Inr ((), w')
            \<and> filter (\<lambda>e. e = ModelTrain \<or> e = ModelEval) (emitted w w')
                = concat (replicate (nat epochs) [ModelTrain, ModelEval])"
    by blast
qed

theorem val_epoch_is_ignored_witness:
  "int_of_str toy_converters ''5'' = Some 5
   \<and> train_loader (toy_trainer 1 1) \<noteq> [] \<and> accumulate_gradient (toy_trainer 1 1) \<noteq> 0
   \<and> val_loader (toy_trainer 1 1) \<noteq> []
   \<and> (\<exists>ns. arg_parse toy_converters [''--val_epoch'', ''5''] = Namespace ns
         \<and> map_of ns ''val_epoch'' = Some (VInt 5))
   \<and> (\<exists>w'. fit toy (toy_trainer 1 1) 2 toy_world = Inr ((), w')
         \<and> filter (\<lambda>e. e = ModelTrain \<or> e = ModelEval) (emitted toy_world w')
             = [ModelTrain, ModelEval, ModelTrain, ModelEval])"
proof -
  have "concat (replicate (nat 2) [ModelTrain, ModelEval])
        = [ModelTrain, ModelEval, ModelTrain, ModelEval :: nat event]"
    by (simp add: numeral_2_eq_2)
  with val_epoch_is_ignored [of toy_converters "''5''" 5 "toy_trainer 1 1" toy 2 toy_world]
  show ?thesis
    by (simp add: toy_converters_def toy_trainer_def)
qed

end
